theory Spec2Isabelle
  imports Complex_Main
begin

section \<open>Rwanda Infrastructure Management System: the data model\<close>

text \<open>
  The class \<^verbatim>\<open>InfrastructureManager\<close> of \<^verbatim>\<open>RIMS/main.cpp\<close> holds three
  fields: \<^verbatim>\<open>vector<string> city_names\<close>, \<^verbatim>\<open>vector<vector<int>> roads\<close> and
  \<^verbatim>\<open>vector<vector<double>> budgets\<close>. A finite \<^verbatim>\<open>double\<close> is modelled by the real
  number it denotes. The comparisons of the program are exact on that reading; printing
  and parsing are the subject of the section on text below.
\<close>

record state =
  city_names :: "string list"
  roads :: "int list list"
  budgets :: "real list list"

text \<open>The local struct \<^verbatim>\<open>RoadEntry\<close> of \<^verbatim>\<open>save_roads_to_file\<close>.\<close>

record RoadEntry =
  nbr :: int
  city1 :: string
  city2 :: string
  budget :: real

text \<open>
  The two files under \<^verbatim>\<open>data/\<close>. A file is the list of its lines (what successive
  \<^verbatim>\<open>getline\<close> calls return), \<open>None\<close> when an \<^verbatim>\<open>ifstream\<close> cannot open it. Whether an
  \<^verbatim>\<open>ofstream\<close> can open the file for writing is a property of the environment, kept as a
  flag per file.
\<close>

record filesystem =
  cities_txt :: "string list option"
  roads_txt :: "string list option"
  cities_writable :: bool
  roads_writable :: bool

text \<open>
  The manager together with its environment. Of the console only the messages of the
  persistence routines are kept; the prompts of the menu are not modelled.
\<close>

record world =
  mem :: state
  disk :: filesystem
  console :: "string list"

definition MAX_CITIES :: int where
  "MAX_CITIES = 500"

section \<open>Characters and text\<close>

definition tab :: char where
  "tab = CHR 0x09"

text \<open>The \<^verbatim>\<open><cctype>\<close> predicates in the C locale.\<close>

definition isalpha :: "char \<Rightarrow> bool" where
  "isalpha c = (let n = (of_char c :: nat) in (65 \<le> n \<and> n \<le> 90) \<or> (97 \<le> n \<and> n \<le> 122))"

definition isdigit :: "char \<Rightarrow> bool" where
  "isdigit c = (let n = (of_char c :: nat) in 48 \<le> n \<and> n \<le> 57)"

definition isalnum :: "char \<Rightarrow> bool" where
  "isalnum c = (isalpha c \<or> isdigit c)"

definition isspace :: "char \<Rightarrow> bool" where
  "isspace c = (let n = (of_char c :: nat) in n = 32 \<or> (9 \<le> n \<and> n \<le> 13))"

text \<open>
  \<^verbatim>\<open>s.find(c, pos)\<close> and \<^verbatim>\<open>s.find(str)\<close> of \<^verbatim>\<open>std::string\<close>; \<^verbatim>\<open>npos\<close> is \<open>None\<close>.
  \<^verbatim>\<open>s.substr(pos)\<close> is \<open>drop pos s\<close> and \<^verbatim>\<open>s.substr(pos, len)\<close> is
  \<open>take len (drop pos s)\<close>.
\<close>

fun index_of_char :: "char \<Rightarrow> string \<Rightarrow> nat option" where
  "index_of_char c [] = None"
| "index_of_char c (x # xs) = (if x = c then Some 0 else map_option Suc (index_of_char c xs))"

definition find_char :: "string \<Rightarrow> char \<Rightarrow> nat \<Rightarrow> nat option" where
  "find_char s c pos = map_option (\<lambda>k. pos + k) (index_of_char c (drop pos s))"

fun find_str :: "string \<Rightarrow> string \<Rightarrow> nat option" where
  "find_str [] pat = (if pat = [] then Some 0 else None)"
| "find_str (x # xs) pat =
     (if take (length pat) (x # xs) = pat then Some 0 else map_option Suc (find_str xs pat))"

definition substr :: "string \<Rightarrow> nat \<Rightarrow> nat \<Rightarrow> string" where
  "substr s pos len = take len (drop pos s)"

text \<open>Decimal output of \<^verbatim>\<open>operator<<\<close> for \<^verbatim>\<open>size_t\<close> and \<^verbatim>\<open>int\<close>.\<close>

definition digit_char :: "nat \<Rightarrow> char" where
  "digit_char d = ''0123456789'' ! d"

fun show_nat :: "nat \<Rightarrow> string" where
  "show_nat n = (if n < 10 then [digit_char n] else show_nat (n div 10) @ [digit_char (n mod 10)])"

declare show_nat.simps [simp del]

definition show_int :: "int \<Rightarrow> string" where
  "show_int i = (if i < 0 then CHR ''-'' # show_nat (nat (- i)) else show_nat (nat i))"

text \<open>
  \<^verbatim>\<open>out << fixed << setprecision(1) << x\<close>: the value rounded to one decimal place, ties
  to even, with at least one digit before the point.
\<close>

definition round_half_even :: "real \<Rightarrow> int" where
  "round_half_even x =
     (let f = \<lfloor>x\<rfloor>; d = x - of_int f
      in if d < 1 / 2 then f else if 1 / 2 < d then f + 1 else if even f then f else f + 1)"

definition fmt_fixed1 :: "real \<Rightarrow> string" where
  "fmt_fixed1 x =
     (let t = nat (round_half_even (\<bar>x\<bar> * 10))
      in (if x < 0 then ''-'' else '''') @ show_nat (t div 10) @ ''.'' @ show_nat (t mod 10))"

text \<open>
  \<^verbatim>\<open>std::stoi\<close> (base 10): leading white space, an optional sign, then digits; what
  follows the digits is ignored. \<open>None\<close> stands for the two exceptions it throws:
  \<^verbatim>\<open>invalid_argument\<close> when there is no digit, \<^verbatim>\<open>out_of_range\<close> when the value does not
  fit a 32-bit \<^verbatim>\<open>int\<close>.
\<close>

definition digit_val :: "char \<Rightarrow> nat" where
  "digit_val c = of_char c - 48"

definition digits_val :: "string \<Rightarrow> nat" where
  "digits_val ds = foldl (\<lambda>a c. 10 * a + digit_val c) 0 ds"

definition is_sign :: "char \<Rightarrow> bool" where
  "is_sign c = (c = CHR ''-'' \<or> c = CHR ''+'')"

definition skip_sign :: "string \<Rightarrow> string" where
  "skip_sign s = (case s of [] \<Rightarrow> [] | c # r \<Rightarrow> if is_sign c then r else s)"

definition negative :: "string \<Rightarrow> bool" where
  "negative s = (case s of [] \<Rightarrow> False | c # r \<Rightarrow> c = CHR ''-'')"

definition stoi :: "string \<Rightarrow> int option" where
  "stoi s =
     (let body = dropWhile isspace s;
          ds = takeWhile isdigit (skip_sign body);
          v = (if negative body then - int (digits_val ds) else int (digits_val ds))
      in if ds = [] then None
         else if v < - 2147483648 \<or> 2147483647 < v then None
         else Some v)"

text \<open>
  \<^verbatim>\<open>std::stod\<close> on decimal text: leading white space, an optional sign, digits with an
  optional fraction, at least one digit in all; what follows is ignored, and \<open>None\<close> is
  \<^verbatim>\<open>invalid_argument\<close>. The model returns the exact decimal value, not the nearest
  \<^verbatim>\<open>double\<close>, and never raises \<^verbatim>\<open>out_of_range\<close>. Exponents, hexadecimal floats, \<^verbatim>\<open>inf\<close>
  and \<^verbatim>\<open>nan\<close> are outside it. The program never writes them, and every statement
  below that goes through \<open>stod\<close> reads text the program wrote; what is said of rows in
  general is said of the names and the budget that a row gave.
\<close>

definition stod :: "string \<Rightarrow> real option" where
  "stod s =
     (let body = dropWhile isspace s;
          unsigned = skip_sign body;
          ip = takeWhile isdigit unsigned;
          rest = dropWhile isdigit unsigned;
          fp = (case rest of [] \<Rightarrow> [] | c # r \<Rightarrow> if c = CHR ''.'' then takeWhile isdigit r else []);
          v = real (digits_val ip) + real (digits_val fp) / 10 ^ length fp
      in if ip = [] \<and> fp = [] then None
         else Some (if negative body then - v else v))"

section \<open>The private helpers of the manager\<close>

text \<open>\<^verbatim>\<open>get_city_index\<close>: the 0-based index of the first city of that name, or \<open>-1\<close>.\<close>

fun index_loop :: "string list \<Rightarrow> string \<Rightarrow> nat \<Rightarrow> int" where
  "index_loop [] name i = - 1"
| "index_loop (c # cs) name i = (if c = name then int i else index_loop cs name (Suc i))"

definition get_city_index :: "state \<Rightarrow> string \<Rightarrow> int" where
  "get_city_index st name = index_loop (city_names st) name 0"

definition city_exists :: "state \<Rightarrow> string \<Rightarrow> bool" where
  "city_exists st name = (get_city_index st name \<noteq> - 1)"

text \<open>\<^verbatim>\<open>is_valid_city_name\<close>: the loop over the characters carries \<^verbatim>\<open>has_letter\<close>.\<close>

fun name_loop :: "string \<Rightarrow> bool \<Rightarrow> bool" where
  "name_loop [] has_letter = has_letter"
| "name_loop (c # cs) has_letter =
     (if \<not> isalnum c \<and> c \<noteq> CHR '' '' \<and> c \<noteq> CHR ''-'' then False
      else name_loop cs (if isalpha c then True else has_letter))"

definition is_valid_city_name :: "string \<Rightarrow> bool" where
  "is_valid_city_name name = (if name = [] \<or> length name < 2 then False else name_loop name False)"

definition is_valid_budget :: "real \<Rightarrow> bool" where
  "is_valid_budget b = (0 < b \<and> b \<le> 1000)"

definition is_valid_city_count :: "state \<Rightarrow> int \<Rightarrow> bool" where
  "is_valid_city_count st count = (0 < count \<and> count \<le> MAX_CITIES - int (length (city_names st)))"

definition is_valid_index :: "state \<Rightarrow> int \<Rightarrow> bool" where
  "is_valid_index st index = (1 \<le> index \<and> index \<le> int (length (city_names st)))"

text \<open>
  Appending a city (lines 207-212 and 292-297): push the name, resize every row to the
  new count \<open>n\<close>, then push a fresh row of \<open>n\<close> zeros onto each matrix.
\<close>

definition resize :: "'a list \<Rightarrow> nat \<Rightarrow> 'a \<Rightarrow> 'a list" where
  "resize row n v = (if n \<le> length row then take n row else row @ replicate (n - length row) v)"

definition push_city :: "state \<Rightarrow> string \<Rightarrow> state" where
  "push_city st name =
     (let n = length (city_names st) + 1
      in \<lparr>city_names = city_names st @ [name],
          roads = map (\<lambda>row. resize row n 0) (roads st) @ [replicate n 0],
          budgets = map (\<lambda>row. resize row n 0) (budgets st) @ [replicate n 0]\<rparr>)"

text \<open>
  \<^verbatim>\<open>m[i][j] = m[j][i] = v\<close>: the right assignment runs first. The source indexes without a
  bounds check; the positions come from \<^verbatim>\<open>get_city_index\<close>, so they are in range whenever
  the matrices are square of the size of the city list.
\<close>

definition set_cell :: "'a list list \<Rightarrow> nat \<Rightarrow> nat \<Rightarrow> 'a \<Rightarrow> 'a list list" where
  "set_cell m i j v = m[i := (m ! i)[j := v]]"

definition set_both :: "'a list list \<Rightarrow> nat \<Rightarrow> nat \<Rightarrow> 'a \<Rightarrow> 'a list list" where
  "set_both m i j v = set_cell (set_cell m j i v) i j v"

section \<open>Saving\<close>

text \<open>
  \<^verbatim>\<open>save_cities_to_file\<close>: header, then one row per city with its 1-based position. The
  call of \<^verbatim>\<open>ensure_data_directory\<close> has no effect on the manager; where it fails the
  files cannot be opened, which the flags of the file system say.
\<close>

definition cities_header :: string where
  "cities_header = ''Index'' @ [tab] @ ''City Name''"

definition format_city :: "nat \<Rightarrow> string \<Rightarrow> string" where
  "format_city i name = show_nat (i + 1) @ [tab] @ name"

definition cities_lines :: "state \<Rightarrow> string list" where
  "cities_lines st =
     cities_header # map (\<lambda>i. format_city i (city_names st ! i)) [0 ..< length (city_names st)]"

definition save_cities_to_file :: "world \<Rightarrow> world" where
  "save_cities_to_file w =
     (if cities_writable (disk w)
      then w\<lparr>disk := (disk w)\<lparr>cities_txt := Some (cities_lines (mem w))\<rparr>\<rparr>
      else w\<lparr>console := console w @ [''Error: Cannot save to cities.txt. Check permissions.'']\<rparr>)"

text \<open>
  \<^verbatim>\<open>save_roads_to_file\<close>, lines 111-144: the records of the file as it stands. A line
  is skipped (\<^verbatim>\<open>continue\<close>) when a tab is missing, when \<^verbatim>\<open>stoi\<close> or \<^verbatim>\<open>stod\<close> throws, or
  when the road field has no \<^verbatim>\<open>" - "\<close>.
\<close>

definition parse_existing_road :: "string \<Rightarrow> RoadEntry option" where
  "parse_existing_road line =
     (case find_char line tab 0 of None \<Rightarrow> None | Some first_tab \<Rightarrow>
      case find_char line tab (first_tab + 1) of None \<Rightarrow> None | Some second_tab \<Rightarrow>
      case stoi (substr line 0 first_tab) of None \<Rightarrow> None | Some n \<Rightarrow>
      let road = substr line (first_tab + 1) (second_tab - first_tab - 1) in
      case stod (drop (second_tab + 1) line) of None \<Rightarrow> None | Some b \<Rightarrow>
      case find_str road '' - '' of None \<Rightarrow> None | Some dash_pos \<Rightarrow>
        Some \<lparr>nbr = n, city1 = substr road 0 dash_pos, city2 = drop (dash_pos + 3) road,
              budget = b\<rparr>)"

definition read_existing_roads :: "filesystem \<Rightarrow> RoadEntry list" where
  "read_existing_roads fs =
     (case roads_txt fs of None \<Rightarrow> [] | Some lines \<Rightarrow> List.map_filter parse_existing_road (drop 1 lines))"

text \<open>
  Lines 146-174. The two nested loops visit the positions \<open>(i, j)\<close> with \<open>i < j\<close> row by
  row; a cell equal to 1 is a road.
\<close>

definition edge_positions :: "state \<Rightarrow> (nat \<times> nat) list" where
  "edge_positions st =
     [(i, j). i \<leftarrow> [0 ..< length (roads st)], j \<leftarrow> [i + 1 ..< length (roads st ! i)],
              roads st ! i ! j = 1]"

definition entry_matches :: "string \<Rightarrow> string \<Rightarrow> RoadEntry \<Rightarrow> bool" where
  "entry_matches c1 c2 entry =
     ((city1 entry = c1 \<and> city2 entry = c2) \<or> (city1 entry = c2 \<and> city2 entry = c1))"

text \<open>
  \<^verbatim>\<open>existing_roads.back().nbr + 1\<close> on a 32-bit \<^verbatim>\<open>int\<close>. At \<^verbatim>\<open>INT_MAX\<close> the addition
  overflows; the model wraps, as two's complement hardware does.
\<close>

definition int32_succ :: "int \<Rightarrow> int" where
  "int32_succ n = (if n = 2147483647 then - 2147483648 else n + 1)"

definition next_nbr :: "RoadEntry list \<Rightarrow> int" where
  "next_nbr existing_roads = (if existing_roads = [] then 1 else int32_succ (nbr (last existing_roads)))"

text \<open>
  The body of the inner \<^verbatim>\<open>if\<close>: the first matching entry of the file gives its number
  (the \<^verbatim>\<open>break\<close>); with no match the road gets \<open>next_nbr\<close>.
\<close>

definition reconcile_road :: "RoadEntry list \<Rightarrow> string \<Rightarrow> string \<Rightarrow> real \<Rightarrow> RoadEntry" where
  "reconcile_road existing_roads c1 c2 b =
     (case find (entry_matches c1 c2) existing_roads of
        Some entry \<Rightarrow> \<lparr>nbr = nbr entry, city1 = c1, city2 = c2, budget = b\<rparr>
      | None \<Rightarrow> \<lparr>nbr = next_nbr existing_roads, city1 = c1, city2 = c2, budget = b\<rparr>)"

definition updated_roads :: "state \<Rightarrow> RoadEntry list \<Rightarrow> RoadEntry list" where
  "updated_roads st existing_roads =
     map (\<lambda>(i, j). reconcile_road existing_roads (city_names st ! i) (city_names st ! j)
                     (budgets st ! i ! j))
         (edge_positions st)"

text \<open>
  Lines 176-179, \<^verbatim>\<open>std::sort\<close> by \<^verbatim>\<open>nbr\<close>. The standard leaves the order of entries with
  equal numbers open; the model keeps them in the order of the enumeration.
\<close>

definition sort_by_nbr :: "RoadEntry list \<Rightarrow> RoadEntry list" where
  "sort_by_nbr entries = sort_key nbr entries"

definition roads_header :: string where
  "roads_header = ''Nbr'' @ [tab] @ ''Road'' @ [tab, tab, tab] @ ''Budget''"

definition format_road :: "RoadEntry \<Rightarrow> string" where
  "format_road entry =
     show_int (nbr entry) @ [tab] @ city1 entry @ '' - '' @ city2 entry @ [tab]
       @ fmt_fixed1 (budget entry)"

definition roads_lines :: "state \<Rightarrow> filesystem \<Rightarrow> string list" where
  "roads_lines st fs =
     roads_header # map format_road (sort_by_nbr (updated_roads st (read_existing_roads fs)))"

definition save_roads_to_file :: "world \<Rightarrow> world" where
  "save_roads_to_file w =
     (if roads_writable (disk w)
      then w\<lparr>disk := (disk w)\<lparr>roads_txt := Some (roads_lines (mem w) (disk w))\<rparr>\<rparr>
      else w\<lparr>console := console w @ [''Error: Cannot save to roads.txt.'']\<rparr>)"

section \<open>Loading\<close>

text \<open>\<^verbatim>\<open>load_cities_from_file\<close>: the header is skipped, then one step per line.\<close>

definition parse_city_line :: "string \<Rightarrow> string option" where
  "parse_city_line line =
     (case find_char line tab 0 of None \<Rightarrow> None | Some tab_pos \<Rightarrow> Some (drop (tab_pos + 1) line))"

definition load_city_line :: "state \<Rightarrow> string \<Rightarrow> state" where
  "load_city_line st line =
     (case parse_city_line line of
        None \<Rightarrow> st
      | Some city_name \<Rightarrow>
          if is_valid_city_name city_name \<and> \<not> city_exists st city_name
          then push_city st city_name else st)"

definition load_cities_from_file :: "world \<Rightarrow> world" where
  "load_cities_from_file w =
     (case cities_txt (disk w) of
        None \<Rightarrow> w
      | Some lines \<Rightarrow> w\<lparr>mem := foldl load_city_line (mem w) (drop 1 lines)\<rparr>)"

text \<open>
  \<^verbatim>\<open>load_roads_from_file\<close>. A line that parses gives the two names and the budget
  (lines 226-241); lines 243-248 then write the four cells or leave the matrices alone.
\<close>

definition parse_road_line :: "string \<Rightarrow> (string \<times> string \<times> real) option" where
  "parse_road_line line =
     (case find_char line tab 0 of None \<Rightarrow> None | Some first_tab \<Rightarrow>
      case find_char line tab (first_tab + 1) of None \<Rightarrow> None | Some second_tab \<Rightarrow>
      let road = substr line (first_tab + 1) (second_tab - first_tab - 1) in
      case stod (drop (second_tab + 1) line) of None \<Rightarrow> None | Some b \<Rightarrow>
      case find_str road '' - '' of None \<Rightarrow> None | Some dash_pos \<Rightarrow>
        Some (substr road 0 dash_pos, drop (dash_pos + 3) road, b))"

definition load_road_record :: "state \<Rightarrow> string \<Rightarrow> string \<Rightarrow> real \<Rightarrow> state" where
  "load_road_record st c1 c2 b =
     (let i = get_city_index st c1; j = get_city_index st c2
      in if i \<noteq> - 1 \<and> j \<noteq> - 1 \<and> is_valid_budget b
         then st\<lparr>roads := set_both (roads st) (nat i) (nat j) 1,
                 budgets := set_both (budgets st) (nat i) (nat j) b\<rparr>
         else st)"

definition load_road_line :: "state \<Rightarrow> string \<Rightarrow> state" where
  "load_road_line st line =
     (case parse_road_line line of
        None \<Rightarrow> st
      | Some (c1, c2, b) \<Rightarrow> load_road_record st c1 c2 b)"

definition load_roads_from_file :: "world \<Rightarrow> world" where
  "load_roads_from_file w =
     (case roads_txt (disk w) of
        None \<Rightarrow> w
      | Some lines \<Rightarrow> w\<lparr>mem := foldl load_road_line (mem w) (drop 1 lines)\<rparr>)"

text \<open>The constructor: empty matrices, then the two loads.\<close>

definition empty_state :: state where
  "empty_state = \<lparr>city_names = [], roads = [], budgets = []\<rparr>"

definition new_manager :: "filesystem \<Rightarrow> world" where
  "new_manager fs =
     load_roads_from_file (load_cities_from_file \<lparr>mem = empty_state, disk = fs, console = []\<rparr>)"

section \<open>The public operations\<close>

text \<open>
  Each operation prompts in \<^verbatim>\<open>while (true)\<close> loops until its input passes the checks,
  and only then mutates and saves. The model takes the input and gives \<open>None\<close> where the
  checks refuse it: a completed call of the source is a call with the input its loops
  accepted, and the result is \<open>Some\<close> world.
\<close>

fun add_city_names :: "state \<Rightarrow> string list \<Rightarrow> state option" where
  "add_city_names st [] = Some st"
| "add_city_names st (name # rest) =
     (if name = [] \<or> city_exists st name \<or> \<not> is_valid_city_name name then None
      else add_city_names (push_city st name) rest)"

definition add_cities :: "world \<Rightarrow> string list \<Rightarrow> world option" where
  "add_cities w names =
     (if \<not> is_valid_city_count (mem w) (int (length names)) then None
      else case add_city_names (mem w) names of
             None \<Rightarrow> None
           | Some st \<Rightarrow> Some (save_cities_to_file (w\<lparr>mem := st\<rparr>)))"

definition road_between :: "state \<Rightarrow> string \<Rightarrow> string \<Rightarrow> int" where
  "road_between st c1 c2 = roads st ! nat (get_city_index st c1) ! nat (get_city_index st c2)"

definition add_road :: "world \<Rightarrow> string \<Rightarrow> string \<Rightarrow> world option" where
  "add_road w c1 c2 =
     (let st = mem w in
      if \<not> city_exists st c1 then None
      else if c2 = c1 then None
      else if \<not> city_exists st c2 then None
      else if road_between st c1 c2 = 1 then None
      else let i = nat (get_city_index st c1); j = nat (get_city_index st c2)
           in Some (save_roads_to_file (w\<lparr>mem := st\<lparr>roads := set_both (roads st) i j 1\<rparr>\<rparr>)))"

definition add_budget :: "world \<Rightarrow> string \<Rightarrow> string \<Rightarrow> real \<Rightarrow> world option" where
  "add_budget w c1 c2 b =
     (let st = mem w in
      if \<not> city_exists st c1 then None
      else if \<not> city_exists st c2 then None
      else if road_between st c1 c2 = 0 then None
      else if \<not> is_valid_budget b then None
      else let i = nat (get_city_index st c1); j = nat (get_city_index st c2)
           in Some (save_roads_to_file (w\<lparr>mem := st\<lparr>budgets := set_both (budgets st) i j b\<rparr>\<rparr>)))"

definition edit_city :: "world \<Rightarrow> int \<Rightarrow> string \<Rightarrow> world option" where
  "edit_city w index new_name =
     (let st = mem w in
      if \<not> is_valid_index st index then None
      else if new_name = [] then None
      else if city_exists st new_name then None
      else if \<not> is_valid_city_name new_name then None
      else Some (save_roads_to_file (save_cities_to_file
             (w\<lparr>mem := st\<lparr>city_names := (city_names st)[nat (index - 1) := new_name]\<rparr>\<rparr>))))"

text \<open>The menu choices that mutate, and a session as the list of its completed choices.\<close>

datatype command =
    AddCities "string list"
  | AddRoad string string
  | AddBudget string string real
  | EditCity int string

fun run_command :: "world \<Rightarrow> command \<Rightarrow> world option" where
  "run_command w (AddCities names) = add_cities w names"
| "run_command w (AddRoad c1 c2) = add_road w c1 c2"
| "run_command w (AddBudget c1 c2 b) = add_budget w c1 c2 b"
| "run_command w (EditCity index new_name) = edit_city w index new_name"

fun session :: "world \<Rightarrow> command list \<Rightarrow> world option" where
  "session w [] = Some w"
| "session w (c # cs) = (case run_command w c of None \<Rightarrow> None | Some w' \<Rightarrow> session w' cs)"

section \<open>Notions used in the statements\<close>

text \<open>The highest identifier among the records read from the road file.\<close>

definition highest_nbr :: "RoadEntry list \<Rightarrow> int" where
  "highest_nbr existing_roads = Max (set (map nbr existing_roads))"

text \<open>A record of the file matches the road between the two names, in either order.\<close>

definition matched_in :: "RoadEntry list \<Rightarrow> string \<Rightarrow> string \<Rightarrow> bool" where
  "matched_in existing_roads c1 c2 = (find (entry_matches c1 c2) existing_roads \<noteq> None)"

text \<open>
  Both matrices are square, of the size of the city list: the positions that
  \<^verbatim>\<open>get_city_index\<close> returns are then in range of every row.
\<close>

definition square :: "state \<Rightarrow> bool" where
  "square st =
     (length (roads st) = length (city_names st) \<and>
      length (budgets st) = length (city_names st) \<and>
      (\<forall>row \<in> set (roads st). length row = length (city_names st)) \<and>
      (\<forall>row \<in> set (budgets st). length row = length (city_names st)))"

text \<open>The city names are pairwise distinct and the matrices are square.\<close>

definition well_formed :: "state \<Rightarrow> bool" where
  "well_formed st = (distinct (city_names st) \<and> square st)"

text \<open>
  The name neither holds the separator \<^verbatim>\<open>" - "\<close> of the road field nor ends in
  \<^verbatim>\<open>" -"\<close>: written in front of the separator, the first \<^verbatim>\<open>" - "\<close> of the field is
  the separator itself.
\<close>

definition separator_free :: "string \<Rightarrow> bool" where
  "separator_free name = (find_str (name @ '' -'') '' - '' = None)"

text \<open>The state with the given cities and no road.\<close>

definition zero_state :: "string list \<Rightarrow> state" where
  "zero_state ns =
     \<lparr>city_names = ns,
      roads = replicate (length ns) (replicate (length ns) 0),
      budgets = replicate (length ns) (replicate (length ns) 0)\<rparr>"

text \<open>
  The canonical enumeration of the roads: the positions \<open>(i, j)\<close> with \<open>i < j\<close> and a road,
  row by row, each with its budget.
\<close>

definition canonical_edges :: "state \<Rightarrow> (nat \<times> nat \<times> real) list" where
  "canonical_edges st = map (\<lambda>(i, j). (i, j, budgets st ! i ! j)) (edge_positions st)"

text \<open>Saving both files and constructing a new manager from them.\<close>

definition save_all :: "world \<Rightarrow> world" where
  "save_all w = save_roads_to_file (save_cities_to_file w)"

definition restarted :: "world \<Rightarrow> state" where
  "restarted w = mem (new_manager (disk (save_all w)))"

text \<open>The road is written and read back with the same budget.\<close>

definition budget_survives :: "real \<Rightarrow> bool" where
  "budget_survives b = (is_valid_budget b \<and> stod (fmt_fixed1 b) = Some b)"

text \<open>
  What every operation keeps besides the shape: the names are valid, an adjacency cell is
  0 or 1, both matrices are symmetric, and where there is no road the budget is 0.
\<close>

definition tidy :: "state \<Rightarrow> bool" where
  "tidy st =
     (\<forall>i < length (city_names st). \<forall>j < length (city_names st).
        (roads st ! i ! j = 0 \<or> roads st ! i ! j = 1)
        \<and> roads st ! i ! j = roads st ! j ! i
        \<and> budgets st ! i ! j = budgets st ! j ! i
        \<and> (roads st ! i ! j = 0 \<longrightarrow> budgets st ! i ! j = 0))"

definition sound :: "state \<Rightarrow> bool" where
  "sound st =
     (well_formed st \<and> (\<forall>name \<in> set (city_names st). is_valid_city_name name) \<and> tidy st)"


section \<open>Concrete inputs\<close>

text \<open>A row of the road file, from the text of its three fields.\<close>

definition road_line :: "string \<Rightarrow> string \<Rightarrow> string \<Rightarrow> string" where
  "road_line n road b = n @ [tab] @ road @ [tab] @ b"

definition three_cities :: "string list" where
  "three_cities = [''Kigali'', ''Huye'', ''Musanze'']"

text \<open>A manager whose road file cannot be opened for writing.\<close>

definition locked_world :: world where
  "locked_world =
     \<lparr>mem = \<lparr>city_names = three_cities,
              roads = [[0, 1, 0], [1, 0, 0], [0, 0, 0]],
              budgets = [[0, 12.5, 0], [12.5, 0, 0], [0, 0, 0]]\<rparr>,
      disk = \<lparr>cities_txt = None, roads_txt = None, cities_writable = True,
               roads_writable = False\<rparr>,
      console = []\<rparr>"

text \<open>
  A road file whose records are not in ascending order of identifier, as a foreign edit
  can leave it, and a manager with a third road that the file does not hold.
\<close>

definition unsorted_file :: "string list" where
  "unsorted_file =
     [roads_header,
      road_line ''5'' ''Kigali - Huye'' ''1.0'',
      road_line ''2'' ''Huye - Musanze'' ''1.0'']"

definition unsorted_world :: world where
  "unsorted_world =
     \<lparr>mem = \<lparr>city_names = three_cities,
              roads = [[0, 1, 1], [1, 0, 1], [1, 1, 0]],
              budgets = [[0, 1, 0], [1, 0, 1], [0, 1, 0]]\<rparr>,
      disk = \<lparr>cities_txt = None, roads_txt = Some unsorted_file, cities_writable = True,
               roads_writable = True\<rparr>,
      console = []\<rparr>"

text \<open>A sorted road file and the same manager.\<close>

definition sorted_entries :: "RoadEntry list" where
  "sorted_entries =
     [\<lparr>nbr = 2, city1 = ''Huye'', city2 = ''Musanze'', budget = 1\<rparr>,
      \<lparr>nbr = 5, city1 = ''Kigali'', city2 = ''Huye'', budget = 1\<rparr>]"

text \<open>No data files yet; both can be written.\<close>

definition plain_disk :: filesystem where
  "plain_disk =
     \<lparr>cities_txt = None, roads_txt = None, cities_writable = True, roads_writable = True\<rparr>"

text \<open>Two roads in memory and no road file: the file was never written, or was removed.\<close>

definition two_new_roads_world :: world where
  "two_new_roads_world =
     \<lparr>mem = \<lparr>city_names = three_cities,
              roads = [[0, 1, 1], [1, 0, 0], [1, 0, 0]],
              budgets = [[0, 0, 0], [0, 0, 0], [0, 0, 0]]\<rparr>,
      disk = plain_disk,
      console = []\<rparr>"

text \<open>A session that adds three cities and two roads from Kigali, then renames Kigali.\<close>

definition two_roads_session :: "command list" where
  "two_roads_session =
     [AddCities three_cities, AddRoad ''Kigali'' ''Huye'', AddRoad ''Kigali'' ''Musanze'']"

definition rename_hub_session :: "command list" where
  "rename_hub_session = two_roads_session @ [EditCity 1 ''Nyarugenge'']"

text \<open>A session with one road, and the same session followed by a rename of an endpoint.\<close>

definition one_road_session :: "command list" where
  "one_road_session =
     [AddCities [''Kigali'', ''Huye''], AddRoad ''Kigali'' ''Huye'',
      AddBudget ''Kigali'' ''Huye'' 12.5]"

definition rename_endpoint_session :: "command list" where
  "rename_endpoint_session = one_road_session @ [EditCity 1 ''Nyarugenge'']"

text \<open>The files of a written road: what a session leaves in \<^verbatim>\<open>data/roads.txt\<close>.\<close>

definition roads_file_after :: "command list \<Rightarrow> string list option" where
  "roads_file_after cmds =
     (case session (new_manager plain_disk) cmds of None \<Rightarrow> None | Some w \<Rightarrow> roads_txt (disk w))"

text \<open>A road file with a record from a city to itself.\<close>

definition self_loop_disk :: filesystem where
  "self_loop_disk =
     \<lparr>cities_txt = Some [cities_header, ''1'' @ [tab] @ ''Kigali''],
      roads_txt = Some [roads_header, road_line ''1'' ''Kigali - Kigali'' ''5.0''],
      cities_writable = True, roads_writable = True\<rparr>"

text \<open>A city whose name holds the separator of the road field.\<close>

definition hyphen_session :: "command list" where
  "hyphen_session =
     [AddCities [''Gisenyi - Rubavu'', ''Huye''], AddRoad ''Gisenyi - Rubavu'' ''Huye'']"

definition saved_again :: "command list \<Rightarrow> string list option" where
  "saved_again cmds =
     (case session (new_manager plain_disk) cmds of
        None \<Rightarrow> None
      | Some w \<Rightarrow> roads_txt (disk (save_roads_to_file w)))"


text \<open>A road that was added and given no budget, before any file is written.\<close>

definition unbudgeted_world :: world where
  "unbudgeted_world =
     \<lparr>mem = \<lparr>city_names = [''Kigali'', ''Huye''],
              roads = [[0, 1], [1, 0]],
              budgets = [[0, 0], [0, 0]]\<rparr>,
      disk = plain_disk,
      console = []\<rparr>"

text \<open>Two roads with budgets of one decimal place.\<close>

definition budgeted_world :: world where
  "budgeted_world =
     \<lparr>mem = \<lparr>city_names = three_cities,
              roads = [[0, 1, 0], [1, 0, 1], [0, 1, 0]],
              budgets = [[0, 12.5, 0], [12.5, 0, 7], [0, 7, 0]]\<rparr>,
      disk = plain_disk,
      console = []\<rparr>"

text \<open>The manager after two cities were added, and after the road between them was added.\<close>

definition two_cities_world :: world where
  "two_cities_world =
     \<lparr>mem = \<lparr>city_names = [''Kigali'', ''Huye''],
              roads = [[0, 0], [0, 0]],
              budgets = [[0, 0], [0, 0]]\<rparr>,
      disk = \<lparr>cities_txt = Some [cities_header, ''1'' @ [tab] @ ''Kigali'', ''2'' @ [tab] @ ''Huye''],
               roads_txt = None, cities_writable = True, roads_writable = True\<rparr>,
      console = []\<rparr>"

definition road_added_world :: world where
  "road_added_world =
     \<lparr>mem = \<lparr>city_names = [''Kigali'', ''Huye''],
              roads = [[0, 1], [1, 0]],
              budgets = [[0, 0], [0, 0]]\<rparr>,
      disk = \<lparr>cities_txt = Some [cities_header, ''1'' @ [tab] @ ''Kigali'', ''2'' @ [tab] @ ''Huye''],
               roads_txt = Some [roads_header, road_line ''1'' ''Kigali - Huye'' ''0.0''],
               cities_writable = True, roads_writable = True\<rparr>,
      console = []\<rparr>"

text \<open>
  Four cities whose names make two different roads share the text of the road field: a
  budgeted road from Gisenyi - Rubavu to Huye, then an unbudgeted road from Gisenyi to
  Rubavu - Huye.
\<close>

definition crossed_names_session :: "command list" where
  "crossed_names_session =
     [AddCities [''Gisenyi'', ''Rubavu - Huye'', ''Gisenyi - Rubavu'', ''Huye''],
      AddRoad ''Gisenyi - Rubavu'' ''Huye'',
      AddBudget ''Gisenyi - Rubavu'' ''Huye'' 5,
      AddRoad ''Gisenyi'' ''Rubavu - Huye'']"

section \<open>Basic facts about the reconciliation\<close>

lemma sorted_last_is_Max:
  fixes xs :: "int list"
  assumes "xs \<noteq> []" and "sorted xs"
  shows "last xs = Max (set xs)"
proof -
  have "\<forall>x \<in> set xs. x \<le> last xs"
  proof
    fix x assume "x \<in> set xs"
    then obtain k where k: "k < length xs" "xs ! k = x" by (auto simp: in_set_conv_nth)
    have "xs ! k \<le> xs ! (length xs - 1)"
      using assms k by (intro sorted_nth_mono) auto
    then show "x \<le> last xs" using k assms by (simp add: last_conv_nth)
  qed
  moreover have "last xs \<in> set xs" using assms by simp
  ultimately show ?thesis by (intro Max_eqI [symmetric]) auto
qed

lemma next_nbr_sorted:
  assumes "sorted (map nbr existing_roads)" and "existing_roads \<noteq> []"
    and "nbr (last existing_roads) < 2147483647"
  shows "next_nbr existing_roads = highest_nbr existing_roads + 1"
proof -
  have "last (map nbr existing_roads) = Max (set (map nbr existing_roads))"
    using assms by (intro sorted_last_is_Max) auto
  then have "nbr (last existing_roads) = highest_nbr existing_roads"
    using assms by (simp add: last_map highest_nbr_def)
  then show ?thesis using assms by (simp add: next_nbr_def int32_succ_def)
qed

lemma reconcile_road_fields [simp]:
  "city1 (reconcile_road ex c1 c2 b) = c1"
  "city2 (reconcile_road ex c1 c2 b) = c2"
  "budget (reconcile_road ex c1 c2 b) = b"
  by (simp_all add: reconcile_road_def split: option.splits)

lemma reconcile_road_unmatched:
  assumes "\<not> matched_in ex c1 c2"
  shows "nbr (reconcile_road ex c1 c2 b) = next_nbr ex"
  using assms by (simp add: reconcile_road_def matched_in_def)

lemma reconcile_road_matched:
  assumes "find (entry_matches c1 c2) ex = Some x"
  shows "nbr (reconcile_road ex c1 c2 b) = nbr x"
  using assms by (simp add: reconcile_road_def)

lemma edge_positions_iff:
  "(i, j) \<in> set (edge_positions st) \<longleftrightarrow>
     i < length (roads st) \<and> i < j \<and> j < length (roads st ! i) \<and> roads st ! i ! j = 1"
  by (auto simp: edge_positions_def)

lemma updated_roads_entry:
  assumes "e \<in> set (updated_roads st ex)"
  shows "\<exists>i j. (i, j) \<in> set (edge_positions st) \<and>
           e = reconcile_road ex (city_names st ! i) (city_names st ! j) (budgets st ! i ! j)"
  using assms by (auto simp: updated_roads_def)

lemma set_sort_by_nbr [simp]: "set (sort_by_nbr es) = set es"
  by (simp add: sort_by_nbr_def)

lemma square_row_length:
  assumes "square st" and "i < length (city_names st)"
  shows "length (roads st ! i) = length (city_names st)"
    and "length (budgets st ! i) = length (city_names st)"
  using assms by (simp_all add: square_def)

text \<open>A road that a record of the file matches is written with the number of that record.\<close>

lemma matched_road_keeps_number:
  assumes "e \<in> set (sort_by_nbr (updated_roads st ex))" and "matched_in ex (city1 e) (city2 e)"
  shows "\<exists>x \<in> set ex. entry_matches (city1 e) (city2 e) x \<and> nbr e = nbr x"
proof -
  from assms(1) have "e \<in> set (updated_roads st ex)" by simp
  from updated_roads_entry [OF this]
  obtain i j where e: "e = reconcile_road ex (city_names st ! i) (city_names st ! j)
      (budgets st ! i ! j)" by blast
  from assms(2) obtain x where x: "find (entry_matches (city1 e) (city2 e)) ex = Some x"
    by (auto simp: matched_in_def)
  then have m: "x \<in> set ex" "entry_matches (city1 e) (city2 e) x"
    by (auto simp: find_Some_iff)
  have "find (entry_matches (city_names st ! i) (city_names st ! j)) ex = Some x"
    using x by (simp add: e)
  then have "nbr e = nbr x" by (subst e) (rule reconcile_road_matched)
  with m show ?thesis by blast
qed

text \<open>
  Every row written is the row of a current road, matched or not: in a square state both
  of its names are names of cities.
\<close>

lemma written_rows_name_cities:
  assumes "e \<in> set (sort_by_nbr (updated_roads st ex))" and "square st"
  shows "city1 e \<in> set (city_names st)" and "city2 e \<in> set (city_names st)"
proof -
  from assms(1) have "e \<in> set (updated_roads st ex)" by simp
  from updated_roads_entry [OF this]
  obtain i j where ij: "(i, j) \<in> set (edge_positions st)"
    and e: "e = reconcile_road ex (city_names st ! i) (city_names st ! j) (budgets st ! i ! j)"
    by blast
  from ij have i: "i < length (roads st)" and j: "j < length (roads st ! i)"
    by (simp_all add: edge_positions_iff)
  have i': "i < length (city_names st)" using i assms(2) by (simp add: square_def)
  then have j': "j < length (city_names st)" using j square_row_length(1) [OF assms(2) i'] by simp
  show "city1 e \<in> set (city_names st)" using i' by (simp add: e)
  show "city2 e \<in> set (city_names st)" using j' by (simp add: e)
qed

section \<open>City positions and matrix cells\<close>

lemma index_loop_absent: "index_loop cs name k = - 1 \<longleftrightarrow> name \<notin> set cs"
  by (induction cs arbitrary: k) auto

lemma index_loop_present:
  assumes "name \<in> set cs"
  shows "\<exists>i < length cs. index_loop cs name k = int (k + i) \<and> cs ! i = name
            \<and> (\<forall>m < i. cs ! m \<noteq> name)"
  using assms
proof (induction cs arbitrary: k)
  case Nil
  then show ?case by simp
next
  case (Cons c cs)
  show ?case
  proof (cases "c = name")
    case True
    then show ?thesis by (intro exI [of _ 0]) simp
  next
    case False
    with Cons.prems have "name \<in> set cs" by simp
    from Cons.IH [OF this, of "Suc k"] obtain i where i: "i < length cs"
      "index_loop cs name (Suc k) = int (Suc k + i)" "cs ! i = name" "\<forall>m < i. cs ! m \<noteq> name"
      by blast
    show ?thesis
    proof (intro exI [of _ "Suc i"] conjI allI impI)
      fix m assume "m < Suc i"
      then show "(c # cs) ! m \<noteq> name" using False i(4) by (cases m) auto
    qed (use False i in auto)
  qed
qed

lemma get_city_index_absent: "get_city_index st name = - 1 \<longleftrightarrow> name \<notin> set (city_names st)"
  by (simp add: get_city_index_def index_loop_absent)

lemma city_exists_iff: "city_exists st name \<longleftrightarrow> name \<in> set (city_names st)"
  by (simp add: city_exists_def get_city_index_absent)

lemma get_city_index_present:
  assumes "name \<in> set (city_names st)"
  shows "0 \<le> get_city_index st name"
    and "nat (get_city_index st name) < length (city_names st)"
    and "city_names st ! nat (get_city_index st name) = name"
  using index_loop_present [OF assms, of 0] by (auto simp: get_city_index_def)

lemma get_city_index_nth:
  assumes "distinct (city_names st)" and "i < length (city_names st)"
  shows "get_city_index st (city_names st ! i) = int i"
proof -
  have "city_names st ! i \<in> set (city_names st)" using assms by simp
  from index_loop_present [OF this, of 0] obtain k where k: "k < length (city_names st)"
    "index_loop (city_names st) (city_names st ! i) 0 = int k" "city_names st ! k = city_names st ! i"
    by auto
  then have "k = i" using assms by (simp add: nth_eq_iff_index_eq)
  then show ?thesis using k by (simp add: get_city_index_def)
qed

lemma length_set_cell [simp]: "length (set_cell m i j v) = length m"
  by (simp add: set_cell_def)

lemma length_set_cell_row [simp]: "length (set_cell m i j v ! a) = length (m ! a)"
  by (cases "i < length m"; cases "a = i") (simp_all add: set_cell_def list_update_beyond)

lemma length_set_both [simp]: "length (set_both m i j v) = length m"
  by (simp add: set_both_def)

lemma length_set_both_row [simp]: "length (set_both m i j v ! a) = length (m ! a)"
  by (simp add: set_both_def)

lemma nth_set_both:
  assumes "i < length m" "j < length m" "j < length (m ! i)" "i < length (m ! j)"
  shows "set_both m i j v ! a ! b =
     (if (a = i \<and> b = j) \<or> (a = j \<and> b = i) then v else m ! a ! b)"
  using assms by (cases "i = j") (auto simp: set_both_def set_cell_def nth_list_update)

lemma set_rows_set_cell:
  assumes "\<forall>row \<in> set m. length row = n"
  shows "\<forall>row \<in> set (set_cell m i j v). length row = n"
proof
  fix row assume "row \<in> set (set_cell m i j v)"
  then obtain a where a: "a < length m" "row = set_cell m i j v ! a"
    by (auto simp: in_set_conv_nth)
  then have "length row = length (m ! a)" by simp
  then show "length row = n" using assms a by simp
qed

lemma set_rows_set_both:
  assumes "\<forall>row \<in> set m. length row = n"
  shows "\<forall>row \<in> set (set_both m i j v). length row = n"
  unfolding set_both_def by (intro set_rows_set_cell assms)

section \<open>A road file that cannot be written\<close>

text \<open>
  Claim C8. When \<^verbatim>\<open>data/roads.txt\<close> cannot be opened for writing, \<^verbatim>\<open>save_roads_to_file\<close>
  prints its error message and returns: the city list and both matrices are what they
  were, and so is the file system.
\<close>

theorem save_roads_unwritable:
  assumes "\<not> roads_writable (disk w)"
  shows "mem (save_roads_to_file w) = mem w
       \<and> disk (save_roads_to_file w) = disk w
       \<and> console (save_roads_to_file w) = console w @ [''Error: Cannot save to roads.txt.'']"
  using assms by (simp add: save_roads_to_file_def)

theorem save_roads_unwritable_witness:
  "mem (save_roads_to_file locked_world) = mem locked_world
   \<and> disk (save_roads_to_file locked_world) = disk locked_world
   \<and> console (save_roads_to_file locked_world) = [''Error: Cannot save to roads.txt.'']"
proof -
  have h: "\<not> roads_writable (disk locked_world)" by (simp add: locked_world_def)
  have c: "console locked_world = []" by (simp add: locked_world_def)
  show ?thesis using save_roads_unwritable [OF h] c by simp
qed

section \<open>The identifier of a road that the file does not hold\<close>

text \<open>
  The source takes \<^verbatim>\<open>existing_roads.back().nbr + 1\<close>: one more than the identifier of the
  last record of the file, not of the highest. In \<open>unsorted_world\<close> the file holds the
  identifiers 5 and 2 in that order; the road Kigali - Musanze is not in the file and is
  written with identifier 3, while the highest identifier of the file is 5.
\<close>

theorem unsorted_file_counterexample:
  "read_existing_roads (disk unsorted_world) =
     [\<lparr>nbr = 5, city1 = ''Kigali'', city2 = ''Huye'', budget = 1\<rparr>,
      \<lparr>nbr = 2, city1 = ''Huye'', city2 = ''Musanze'', budget = 1\<rparr>]
   \<and> highest_nbr (read_existing_roads (disk unsorted_world)) = 5
   \<and> \<not> matched_in (read_existing_roads (disk unsorted_world)) ''Kigali'' ''Musanze''
   \<and> roads_txt (disk (save_roads_to_file unsorted_world)) =
       Some [roads_header,
             road_line ''2'' ''Huye - Musanze'' ''1.0'',
             road_line ''3'' ''Kigali - Musanze'' ''0.0'',
             road_line ''5'' ''Kigali - Huye'' ''1.0'']"
  by code_simp

text \<open>
  Claim C4, amended. Let the records read from the road file be in ascending order of
  identifier, all below \<^verbatim>\<open>INT_MAX\<close>. Then every record written for a road that no record
  of the file matches carries 1 if the file gave no record, and otherwise one more than
  the highest identifier of the file, where every record of the file counts, whether or
  not its names are names of cities. The records written are records of current roads
  only: in a square state both names of each are names of cities.
\<close>

theorem unmatched_road_numbered_after_highest:
  assumes "sorted (map nbr existing_roads)"
    and "\<forall>x \<in> set existing_roads. nbr x < 2147483647"
    and "e \<in> set (sort_by_nbr (updated_roads st existing_roads))"
    and "\<not> matched_in existing_roads (city1 e) (city2 e)"
  shows "nbr e = (if existing_roads = [] then 1 else highest_nbr existing_roads + 1)
       \<and> (square st \<longrightarrow> city1 e \<in> set (city_names st) \<and> city2 e \<in> set (city_names st))"
proof -
  from assms(3) have "e \<in> set (updated_roads st existing_roads)" by simp
  from updated_roads_entry [OF this]
  obtain i j where ij: "(i, j) \<in> set (edge_positions st)"
    and e: "e = reconcile_road existing_roads (city_names st ! i) (city_names st ! j)
                  (budgets st ! i ! j)"
    by blast
  have "nbr e = next_nbr existing_roads"
    using assms(4) by (subst e, intro reconcile_road_unmatched) (simp add: e)
  moreover have "existing_roads \<noteq> [] \<Longrightarrow> next_nbr existing_roads = highest_nbr existing_roads + 1"
    using assms(1,2) by (intro next_nbr_sorted) auto
  ultimately have first: "nbr e = (if existing_roads = [] then 1 else highest_nbr existing_roads + 1)"
    by (simp add: next_nbr_def)
  have second: "city1 e \<in> set (city_names st) \<and> city2 e \<in> set (city_names st)" if sq: "square st"
  proof -
    from ij have i: "i < length (roads st)" and j: "j < length (roads st ! i)"
      by (simp_all add: edge_positions_iff)
    have i': "i < length (city_names st)" using i sq by (simp add: square_def)
    then have "j < length (city_names st)" using j square_row_length(1) [OF sq i'] by simp
    with i' show ?thesis by (simp add: e)
  qed
  from first second show ?thesis by blast
qed

theorem unmatched_road_numbered_after_highest_witness:
  "sorted (map nbr sorted_entries)
   \<and> \<not> matched_in sorted_entries ''Kigali'' ''Musanze''
   \<and> \<lparr>nbr = 6, city1 = ''Kigali'', city2 = ''Musanze'', budget = 0\<rparr>
        \<in> set (sort_by_nbr (updated_roads (mem unsorted_world) sorted_entries))
   \<and> highest_nbr sorted_entries + 1 = 6"
proof -
  let ?e = "\<lparr>nbr = 6, city1 = ''Kigali'', city2 = ''Musanze'', budget = 0\<rparr>"
  have h1: "sorted (map nbr sorted_entries)" by (simp add: sorted_entries_def)
  have h2: "\<forall>x \<in> set sorted_entries. nbr x < 2147483647" by (simp add: sorted_entries_def)
  have h3: "?e \<in> set (sort_by_nbr (updated_roads (mem unsorted_world) sorted_entries))"
    by code_simp
  have h4: "\<not> matched_in sorted_entries (city1 ?e) (city2 ?e)" by code_simp
  have ne: "sorted_entries \<noteq> []" by (simp add: sorted_entries_def)
  show ?thesis
    using unmatched_road_numbered_after_highest [OF h1 h2 h3 h4] h1 h3 h4 ne by simp
qed

section \<open>Several new roads in one save\<close>

text \<open>
  Claim C1 at a concrete input. The source computes the identifier of every unmatched
  road of a save from the same expression \<^verbatim>\<open>existing_roads.back().nbr + 1\<close>, and
  \<^verbatim>\<open>existing_roads\<close> does not grow during the save. With two roads in memory and no road
  file, both records are written with identifier 1. In a session that adds two roads from
  Kigali (identifiers 1 and 2) and then renames Kigali, neither road is matched in the
  next save, and both records are written with identifier 3.
\<close>

theorem two_new_roads_share_identifier:
  "roads_txt (disk (save_roads_to_file two_new_roads_world)) =
     Some [roads_header,
           road_line ''1'' ''Kigali - Huye'' ''0.0'',
           road_line ''1'' ''Kigali - Musanze'' ''0.0'']
   \<and> roads_file_after two_roads_session =
     Some [roads_header,
           road_line ''1'' ''Kigali - Huye'' ''0.0'',
           road_line ''2'' ''Kigali - Musanze'' ''0.0'']
   \<and> roads_file_after rename_hub_session =
     Some [roads_header,
           road_line ''3'' ''Nyarugenge - Huye'' ''0.0'',
           road_line ''3'' ''Nyarugenge - Musanze'' ''0.0'']"
  by code_simp

section \<open>Renaming an endpoint of a saved road\<close>

text \<open>
  Claim C2 at a concrete input. The save compares the names of the cities as they are now
  with the names in the file as it was written before the rename. After the road
  Kigali - Huye is saved with identifier 1, renaming Kigali and saving writes the road
  with identifier 2.
\<close>

theorem rename_changes_identifier:
  "roads_file_after one_road_session =
     Some [roads_header, road_line ''1'' ''Kigali - Huye'' ''12.5'']
   \<and> roads_file_after rename_endpoint_session =
     Some [roads_header, road_line ''2'' ''Nyarugenge - Huye'' ''12.5'']"
  by code_simp

section \<open>A record from a city to itself\<close>

text \<open>
  Claim C5 at a concrete input. \<^verbatim>\<open>add_road\<close> refuses a road from a city to itself;
  \<^verbatim>\<open>load_roads_from_file\<close> has no such check. A road file with the record
  \<^verbatim>\<open>Kigali - Kigali\<close> and budget 5.0 leaves 1 and 5 on the diagonal. Symmetry is
  not affected: it holds in every state a session reaches.
\<close>

theorem self_loop_record_loaded:
  "mem (new_manager self_loop_disk) =
     \<lparr>city_names = [''Kigali''], roads = [[1]], budgets = [[5]]\<rparr>
   \<and> add_road (new_manager self_loop_disk) ''Kigali'' ''Kigali'' = None"
  by code_simp

section \<open>Saving twice\<close>

text \<open>
  Claim C6 at a concrete input. A city name may hold spaces and hyphens, and the road
  field is split at its first \<^verbatim>\<open>" - "\<close>. The road from Gisenyi - Rubavu to Huye is
  written with identifier 1; the next save reads that row as a road from Gisenyi to
  Rubavu - Huye, finds no match for the road in memory, and writes it with identifier 2.
\<close>

theorem second_save_renumbers:
  "roads_file_after hyphen_session =
     Some [roads_header, road_line ''1'' ''Gisenyi - Rubavu - Huye'' ''0.0'']
   \<and> saved_again hyphen_session =
     Some [roads_header, road_line ''2'' ''Gisenyi - Rubavu - Huye'' ''0.0'']"
  by code_simp

section \<open>Loading a record of the road file\<close>

lemma load_road_record_names [simp]: "city_names (load_road_record st c1 c2 b) = city_names st"
  by (simp add: load_road_record_def Let_def)

lemma square_load_road_record:
  assumes "square st"
  shows "square (load_road_record st c1 c2 b)"
  using assms set_rows_set_both [of "roads st" "length (city_names st)"]
    set_rows_set_both [of "budgets st" "length (city_names st)"]
  by (simp add: load_road_record_def Let_def square_def)






section \<open>The city list and the shape of the matrices\<close>

lemma length_resize [simp]: "length (resize row n v) = n"
  by (simp add: resize_def)

lemma nth_resize:
  assumes "j < n"
  shows "resize row n v ! j = (if j < length row then row ! j else v)"
  using assms by (simp add: resize_def nth_append)

lemma city_names_push_city [simp]: "city_names (push_city st name) = city_names st @ [name]"
  by (simp add: push_city_def Let_def)

lemma square_push_city:
  assumes "square st"
  shows "square (push_city st name)"
  using assms by (auto simp: square_def push_city_def Let_def)

lemma roads_push_city:
  assumes "square st" and "i \<le> length (city_names st)" and "j \<le> length (city_names st)"
  shows "roads (push_city st name) ! i ! j =
     (if i < length (city_names st) \<and> j < length (city_names st) then roads st ! i ! j else 0)"
proof (cases "i < length (city_names st)")
  case True
  then have "roads (push_city st name) ! i = resize (roads st ! i) (length (city_names st) + 1) 0"
    using assms(1) by (simp add: push_city_def Let_def square_def nth_append)
  then show ?thesis
    using True assms square_row_length(1) [OF assms(1) True] by (simp add: nth_resize)
next
  case False
  then have "i = length (city_names st)" using assms by simp
  then have "roads (push_city st name) ! i = replicate (length (city_names st) + 1) 0"
    using assms(1) by (simp add: push_city_def Let_def square_def nth_append)
  then show ?thesis using False assms by (simp add: nth_Cons')
qed

lemma budgets_push_city:
  assumes "square st" and "i \<le> length (city_names st)" and "j \<le> length (city_names st)"
  shows "budgets (push_city st name) ! i ! j =
     (if i < length (city_names st) \<and> j < length (city_names st) then budgets st ! i ! j else 0)"
proof (cases "i < length (city_names st)")
  case True
  then have "budgets (push_city st name) ! i = resize (budgets st ! i) (length (city_names st) + 1) 0"
    using assms(1) by (simp add: push_city_def Let_def square_def nth_append)
  then show ?thesis
    using True assms square_row_length(2) [OF assms(1) True] by (simp add: nth_resize)
next
  case False
  then have "i = length (city_names st)" using assms by simp
  then have "budgets (push_city st name) ! i = replicate (length (city_names st) + 1) 0"
    using assms(1) by (simp add: push_city_def Let_def square_def nth_append)
  then show ?thesis using False assms by (simp add: nth_Cons')
qed

lemma well_formed_push_city:
  assumes "well_formed st" and "name \<notin> set (city_names st)"
  shows "well_formed (push_city st name)"
  using assms by (simp add: well_formed_def square_push_city)

lemma load_city_line_cases:
  "load_city_line st line = st \<or>
   (\<exists>name. parse_city_line line = Some name \<and> is_valid_city_name name
      \<and> name \<notin> set (city_names st) \<and> load_city_line st line = push_city st name)"
  by (auto simp: load_city_line_def city_exists_iff split: option.splits)

lemma well_formed_load_city_line:
  assumes "well_formed st"
  shows "well_formed (load_city_line st line)"
  using load_city_line_cases [of st line] assms by (auto intro: well_formed_push_city)

lemma well_formed_foldl:
  assumes "\<And>s x. well_formed s \<Longrightarrow> well_formed (f s x)" and "well_formed st"
  shows "well_formed (foldl f st xs)"
  using assms(2) by (induction xs arbitrary: st) (simp_all add: assms(1))

lemma well_formed_load_road_record:
  assumes "well_formed st"
  shows "well_formed (load_road_record st c1 c2 b)"
  using assms by (simp add: well_formed_def square_load_road_record)

lemma well_formed_load_road_line:
  assumes "well_formed st"
  shows "well_formed (load_road_line st line)"
  using assms by (auto simp: load_road_line_def well_formed_load_road_record split: option.splits)

lemma well_formed_empty: "well_formed empty_state"
  by (simp add: well_formed_def square_def empty_state_def)

lemma well_formed_new_manager: "well_formed (mem (new_manager fs))"
proof -
  have 1: "well_formed (mem (load_cities_from_file \<lparr>mem = empty_state, disk = fs, console = []\<rparr>))"
    by (auto simp: load_cities_from_file_def well_formed_empty split: option.splits
        intro!: well_formed_foldl well_formed_load_city_line)
  have 2: "well_formed (mem (load_roads_from_file w))" if "well_formed (mem w)" for w
    using that by (auto simp: load_roads_from_file_def split: option.splits
        intro!: well_formed_foldl well_formed_load_road_line)
  show ?thesis unfolding new_manager_def by (intro 2 1)
qed

lemma mem_save_cities [simp]: "mem (save_cities_to_file w) = mem w"
  by (simp add: save_cities_to_file_def)

lemma mem_save_roads [simp]: "mem (save_roads_to_file w) = mem w"
  by (simp add: save_roads_to_file_def)

lemma well_formed_add_city_names:
  assumes "add_city_names st names = Some st'" and "well_formed st"
  shows "well_formed st'"
  using assms
proof (induction names arbitrary: st)
  case Nil
  then show ?case by simp
next
  case (Cons name rest)
  from Cons.prems(1) have ok: "name \<notin> set (city_names st)"
    and rest: "add_city_names (push_city st name) rest = Some st'"
    by (auto simp: city_exists_iff split: if_splits)
  show ?case by (rule Cons.IH [OF rest well_formed_push_city [OF Cons.prems(2) ok]])
qed

lemma well_formed_roads_update:
  assumes "well_formed st"
  shows "well_formed (st\<lparr>roads := set_both (roads st) i j v\<rparr>)"
  using assms set_rows_set_both [of "roads st" "length (city_names st)"]
  by (simp add: well_formed_def square_def)

lemma well_formed_budgets_update:
  assumes "well_formed st"
  shows "well_formed (st\<lparr>budgets := set_both (budgets st) i j v\<rparr>)"
  using assms set_rows_set_both [of "budgets st" "length (city_names st)"]
  by (simp add: well_formed_def square_def)

lemma well_formed_rename:
  assumes "well_formed st" and "new_name \<notin> set (city_names st)"
  shows "well_formed (st\<lparr>city_names := (city_names st)[k := new_name]\<rparr>)"
  using assms by (simp add: well_formed_def square_def distinct_list_update)

lemma well_formed_run_command:
  assumes "run_command w c = Some w'" and "well_formed (mem w)"
  shows "well_formed (mem w')"
proof (cases c)
  case (AddCities names)
  with assms(1) obtain st' where "add_city_names (mem w) names = Some st'" "mem w' = st'"
    by (auto simp: add_cities_def split: if_splits option.splits)
  then show ?thesis using well_formed_add_city_names assms(2) by auto
next
  case (AddRoad c1 c2)
  with assms(1) have "mem w' = (mem w)\<lparr>roads := set_both (roads (mem w))
      (nat (get_city_index (mem w) c1)) (nat (get_city_index (mem w) c2)) 1\<rparr>"
    by (auto simp: add_road_def Let_def split: if_splits)
  then show ?thesis using well_formed_roads_update [OF assms(2)] by simp
next
  case (AddBudget c1 c2 b)
  with assms(1) have "mem w' = (mem w)\<lparr>budgets := set_both (budgets (mem w))
      (nat (get_city_index (mem w) c1)) (nat (get_city_index (mem w) c2)) b\<rparr>"
    by (auto simp: add_budget_def Let_def split: if_splits)
  then show ?thesis using well_formed_budgets_update [OF assms(2)] by simp
next
  case (EditCity index new_name)
  with assms(1) have "new_name \<notin> set (city_names (mem w))"
    and "mem w' = (mem w)\<lparr>city_names := (city_names (mem w))[nat (index - 1) := new_name]\<rparr>"
    by (auto simp: edit_city_def Let_def city_exists_iff split: if_splits)
  then show ?thesis using well_formed_rename [OF assms(2)] by simp
qed

lemma well_formed_session:
  assumes "session w cmds = Some w'" and "well_formed (mem w)"
  shows "well_formed (mem w')"
  using assms
proof (induction cmds arbitrary: w)
  case Nil
  then show ?case by simp
next
  case (Cons c cs)
  from Cons.prems(1) obtain w1 where 1: "run_command w c = Some w1" and 2: "session w1 cs = Some w'"
    by (auto split: option.splits)
  show ?case by (rule Cons.IH [OF 2 well_formed_run_command [OF 1 Cons.prems(2)]])
qed

text \<open>
  Claim C10. A step of the city-file load either leaves the state as it is, or appends
  the text after the first tab of the line, and then that text is a valid city name that
  was not in the list. Appending a city to a square state gives a square state with one
  more row and column: the cells of the old positions keep their values and the new
  cells are zero. Hence in the manager as constructed from any two files, and after any
  sequence of completed operations on it, the city names are pairwise distinct and both
  matrices are square of the size of the city list.
\<close>

theorem cities_distinct_matrices_square:
  "(load_city_line st line = st \<or>
      (\<exists>name. parse_city_line line = Some name \<and> is_valid_city_name name
         \<and> name \<notin> set (city_names st) \<and> load_city_line st line = push_city st name))
   \<and> (square st \<longrightarrow>
        city_names (push_city st name) = city_names st @ [name]
        \<and> square (push_city st name)
        \<and> (\<forall>i \<le> length (city_names st). \<forall>j \<le> length (city_names st).
              roads (push_city st name) ! i ! j =
                (if i < length (city_names st) \<and> j < length (city_names st)
                 then roads st ! i ! j else 0)
              \<and> budgets (push_city st name) ! i ! j =
                (if i < length (city_names st) \<and> j < length (city_names st)
                 then budgets st ! i ! j else 0)))
   \<and> (session (new_manager fs) cmds = Some w \<longrightarrow>
        distinct (city_names (mem w)) \<and> square (mem w))"
proof (intro conjI impI allI)
  show "load_city_line st line = st \<or>
      (\<exists>name. parse_city_line line = Some name \<and> is_valid_city_name name
         \<and> name \<notin> set (city_names st) \<and> load_city_line st line = push_city st name)"
    by (rule load_city_line_cases)
next
  assume "session (new_manager fs) cmds = Some w"
  then have "well_formed (mem w)" by (rule well_formed_session) (rule well_formed_new_manager)
  then show "distinct (city_names (mem w))" and "square (mem w)"
    by (simp_all add: well_formed_def)
qed (simp_all add: square_push_city roads_push_city budgets_push_city)

theorem cities_distinct_matrices_square_witness:
  "(\<exists>w. session (new_manager plain_disk) one_road_session = Some w
        \<and> distinct (city_names (mem w)) \<and> square (mem w))
   \<and> square empty_state
   \<and> city_names (push_city empty_state ''Kigali'') = [''Kigali'']
   \<and> roads (push_city empty_state ''Kigali'') ! 0 ! 0 = 0"
proof -
  have "session (new_manager plain_disk) one_road_session \<noteq> None" by code_simp
  then obtain w where w: "session (new_manager plain_disk) one_road_session = Some w" by auto
  have sq: "square empty_state" by (simp add: square_def empty_state_def)
  have n: "city_names empty_state = []" by (simp add: empty_state_def)
  from cities_distinct_matrices_square [of empty_state "[]" "''Kigali''" plain_disk one_road_session w]
    w sq n
  show ?thesis by simp
qed

section \<open>Reading back what was written\<close>

lemma isdigit_digit_char:
  assumes "d < 10"
  shows "isdigit (digit_char d)"
proof -
  from assms have "d \<in> {0, 1, 2, 3, 4, 5, 6, 7, 8, 9}" by auto
  then show ?thesis by (auto simp: digit_char_def isdigit_def)
qed

lemma isdigit_show_nat: "\<forall>c \<in> set (show_nat n). isdigit c"
proof (induction n rule: show_nat.induct)
  case (1 n)
  show ?case
  proof (cases "n < 10")
    case True
    then show ?thesis by (subst show_nat.simps) (simp add: isdigit_digit_char)
  next
    case False
    then show ?thesis using 1 by (subst show_nat.simps) (auto simp: isdigit_digit_char)
  qed
qed

lemma not_isdigit_tab: "\<not> isdigit tab"
  by (simp add: isdigit_def tab_def)

lemma tab_notin_show_nat: "tab \<notin> set (show_nat n)"
  using isdigit_show_nat not_isdigit_tab by blast

lemma tab_notin_show_int: "tab \<notin> set (show_int n)"
  using tab_notin_show_nat by (auto simp: show_int_def tab_def)

lemma name_loop_chars:
  assumes "name_loop cs h"
  shows "\<forall>c \<in> set cs. isalnum c \<or> c = CHR '' '' \<or> c = CHR ''-''"
  using assms by (induction cs arbitrary: h) (auto split: if_splits)

lemma tab_notin_valid_name:
  assumes "is_valid_city_name name"
  shows "tab \<notin> set name"
proof
  assume "tab \<in> set name"
  moreover have "name_loop name False" using assms by (simp add: is_valid_city_name_def split: if_splits)
  ultimately have "isalnum tab \<or> tab = CHR '' '' \<or> tab = CHR ''-''"
    using name_loop_chars by blast
  then show False by (simp add: isalnum_def isalpha_def isdigit_def tab_def)
qed

lemma index_of_char_append:
  assumes "c \<notin> set xs"
  shows "index_of_char c (xs @ c # ys) = Some (length xs)"
  using assms by (induction xs) auto

lemma find_char_first:
  assumes "c \<notin> set xs"
  shows "find_char (xs @ c # ys) c 0 = Some (length xs)"
  using assms by (simp add: find_char_def index_of_char_append)

lemma find_char_second:
  assumes "c \<notin> set ys"
  shows "find_char (xs @ c # ys @ c # zs) c (length xs + 1) = Some (length xs + 1 + length ys)"
  using assms by (simp add: find_char_def index_of_char_append)

lemma find_str_None:
  "find_str s pat = None \<longleftrightarrow> (\<forall>p \<le> length s. take (length pat) (drop p s) \<noteq> pat)"
proof (induction s)
  case Nil
  then show ?case by auto
next
  case (Cons x xs)
  have "(\<forall>p \<le> length (x # xs). take (length pat) (drop p (x # xs)) \<noteq> pat) \<longleftrightarrow>
        take (length pat) (x # xs) \<noteq> pat \<and> (\<forall>p \<le> length xs. take (length pat) (drop p xs) \<noteq> pat)"
    (is "?L \<longleftrightarrow> ?R")
  proof
    assume l: ?L
    have "take (length pat) (x # xs) \<noteq> pat" using l [rule_format, of 0] by simp
    moreover have "take (length pat) (drop p xs) \<noteq> pat" if "p \<le> length xs" for p
      using l [rule_format, of "Suc p"] that by simp
    ultimately show ?R by blast
  next
    assume r: ?R
    show ?L
    proof (intro allI impI)
      fix p assume "p \<le> length (x # xs)"
      then show "take (length pat) (drop p (x # xs)) \<noteq> pat" using r by (cases p) auto
    qed
  qed
  then show ?case using Cons.IH by simp
qed

lemma find_str_at:
  assumes "\<forall>p < length xs. take (length pat) (drop p (xs @ ys)) \<noteq> pat"
    and "take (length pat) ys = pat"
  shows "find_str (xs @ ys) pat = Some (length xs)"
  using assms
proof (induction xs)
  case Nil
  then show ?case by (cases ys) auto
next
  case (Cons x xs)
  have 0: "take (length pat) ((x # xs) @ ys) \<noteq> pat" using Cons.prems(1) [rule_format, of 0] by simp
  have "\<forall>p < length xs. take (length pat) (drop p (xs @ ys)) \<noteq> pat"
  proof (intro allI impI)
    fix p assume "p < length xs"
    then show "take (length pat) (drop p (xs @ ys)) \<noteq> pat"
      using Cons.prems(1) [rule_format, of "Suc p"] by simp
  qed
  from Cons.IH [OF this Cons.prems(2)] 0 show ?case by simp
qed

lemma take_separator_prefix:
  assumes "k \<le> 2"
  shows "take k ('' - '' @ c2) = take k '' -''"
proof -
  from assms have "k = 0 \<or> k = 1 \<or> k = 2" by auto
  then show ?thesis by auto
qed

lemma find_separator:
  assumes "separator_free c1"
  shows "find_str (c1 @ '' - '' @ c2) '' - '' = Some (length c1)"
proof -
  have "find_str (c1 @ ('' - '' @ c2)) '' - '' = Some (length c1)"
  proof (rule find_str_at)
    show "\<forall>p < length c1. take (length '' - '') (drop p (c1 @ '' - '' @ c2)) \<noteq> '' - ''"
    proof (intro allI impI)
      fix p assume p: "p < length c1"
      define d where "d = drop p c1"
      have d: "1 \<le> length d" using p by (simp add: d_def)
      have split: "take n (drop p (c1 @ r)) = take n d @ take (n - length d) r" for r n
        using p by (simp add: d_def)
      have "take (length '' - '' - length d) ('' - '' @ c2) = take (length '' - '' - length d) '' -''"
        using d by (intro take_separator_prefix) simp
      then have same: "take (length '' - '') (drop p (c1 @ '' - '' @ c2))
          = take (length '' - '') (drop p (c1 @ '' -''))"
        by (simp only: split)
      have "\<forall>q \<le> length (c1 @ '' -''). take (length '' - '') (drop q (c1 @ '' -'')) \<noteq> '' - ''"
        using assms unfolding separator_free_def find_str_None .
      moreover have "p \<le> length (c1 @ '' -'')" using p by simp
      ultimately have "take (length '' - '') (drop p (c1 @ '' -'')) \<noteq> '' - ''" by blast
      with same show "take (length '' - '') (drop p (c1 @ '' - '' @ c2)) \<noteq> '' - ''"
        by metis
    qed
  qed simp
  then show ?thesis by simp
qed

lemma parse_format_city: "parse_city_line (format_city i name) = Some name"
proof -
  have "find_char (show_nat (i + 1) @ tab # name) tab 0 = Some (length (show_nat (i + 1)))"
    by (rule find_char_first) (rule tab_notin_show_nat)
  then show ?thesis by (simp add: parse_city_line_def format_city_def)
qed

lemma parse_road_text:
  assumes "tab \<notin> set xs" and "tab \<notin> set c1" and "tab \<notin> set c2" and "separator_free c1"
  shows "parse_road_line (xs @ [tab] @ c1 @ '' - '' @ c2 @ [tab] @ zs) =
     map_option (\<lambda>b. (c1, c2, b)) (stod zs)"
proof -
  define ys where "ys = c1 @ '' - '' @ c2"
  define line where "line = xs @ tab # ys @ tab # zs"
  have tys: "tab \<notin> set ys" using assms(2,3) by (auto simp: ys_def tab_def)
  have first: "find_char line tab 0 = Some (length xs)"
    unfolding line_def by (rule find_char_first [OF assms(1)])
  have second: "find_char line tab (length xs + 1) = Some (length xs + 1 + length ys)"
    unfolding line_def by (rule find_char_second [OF tys])
  have road: "substr line (length xs + 1) (length xs + 1 + length ys - length xs - 1) = ys"
    by (simp add: substr_def line_def)
  have rest: "drop (length xs + 1 + length ys + 1) line = zs"
    by (simp add: line_def)
  have dash: "find_str ys '' - '' = Some (length c1)"
    unfolding ys_def by (rule find_separator [OF assms(4)])
  have c1: "substr ys 0 (length c1) = c1" by (simp add: substr_def ys_def)
  have c2: "drop (length c1 + 3) ys = c2" by (simp add: ys_def)
  have "parse_road_line line = map_option (\<lambda>b. (c1, c2, b)) (stod zs)"
    unfolding parse_road_line_def first second option.case Let_def road rest dash c1 c2
    by (simp split: option.splits)
  then show ?thesis by (simp add: line_def ys_def)
qed

lemma parse_format_road:
  assumes "tab \<notin> set (city1 e)" and "tab \<notin> set (city2 e)" and "separator_free (city1 e)"
  shows "parse_road_line (format_road e) =
     map_option (\<lambda>b. (city1 e, city2 e, b)) (stod (fmt_fixed1 (budget e)))"
  unfolding format_road_def by (rule parse_road_text [OF tab_notin_show_int assms])

section \<open>Loading the files that a save wrote\<close>

lemma resize_zero_row: "resize (replicate n (0::'a::zero)) (Suc n) 0 = replicate (Suc n) 0"
  by (simp add: resize_def replicate_append_same)

lemma push_city_zero_state: "push_city (zero_state ns) x = zero_state (ns @ [x])"
  by (simp add: push_city_def zero_state_def Let_def resize_zero_row replicate_append_same)

lemma cities_lines_snoc:
  "map (\<lambda>i. format_city i ((ns @ [x]) ! i)) [0 ..< length (ns @ [x])] =
   map (\<lambda>i. format_city i (ns ! i)) [0 ..< length ns] @ [format_city (length ns) x]"
  by (simp add: nth_append)

lemma load_written_cities:
  assumes "distinct ns" and "\<forall>name \<in> set ns. is_valid_city_name name"
  shows "foldl load_city_line (zero_state []) (map (\<lambda>i. format_city i (ns ! i)) [0 ..< length ns])
     = zero_state ns"
  using assms
proof (induction ns rule: rev_induct)
  case Nil
  then show ?case by simp
next
  case (snoc x ns)
  have ih: "foldl load_city_line (zero_state []) (map (\<lambda>i. format_city i (ns ! i)) [0 ..< length ns])
     = zero_state ns"
    using snoc by simp
  have x: "is_valid_city_name x" "\<not> city_exists (zero_state ns) x"
    using snoc.prems by (simp_all add: city_exists_iff zero_state_def)
  have "load_city_line (zero_state ns) (format_city (length ns) x) = push_city (zero_state ns) x"
    using x by (simp add: load_city_line_def parse_format_city)
  then show ?case
    by (simp only: cities_lines_snoc foldl_append ih foldl_Cons foldl_Nil push_city_zero_state)
qed

lemma load_road_step:
  assumes "distinct (city_names st)" and "i < length (city_names st)" and "j < length (city_names st)"
    and "parse_road_line l = map_option (\<lambda>b. (city_names st ! i, city_names st ! j, b)) v"
  shows "load_road_line st l =
     (case v of
        None \<Rightarrow> st
      | Some b \<Rightarrow> if is_valid_budget b
                  then st\<lparr>roads := set_both (roads st) i j 1, budgets := set_both (budgets st) i j b\<rparr>
                  else st)"
proof (cases v)
  case None
  then show ?thesis using assms(4) by (simp add: load_road_line_def)
next
  case (Some b)
  have i: "get_city_index st (city_names st ! i) = int i"
    and j: "get_city_index st (city_names st ! j) = int j"
    using assms(1-3) by (simp_all add: get_city_index_nth)
  show ?thesis
    using assms(4) Some by (simp add: load_road_line_def load_road_record_def Let_def i j)
qed

lemma load_road_step_cells:
  assumes d: "distinct (city_names st)" and sq: "square st"
    and ij: "i < j" "j < length (city_names st)"
    and parse: "parse_road_line l = map_option (\<lambda>b. (city_names st ! i, city_names st ! j, b)) v"
    and ac: "a < c" "c < length (city_names st)"
  shows "city_names (load_road_line st l) = city_names st
       \<and> square (load_road_line st l)
       \<and> roads (load_road_line st l) ! a ! c =
          (if a = i \<and> c = j \<and> (\<exists>b. v = Some b \<and> is_valid_budget b) then 1 else roads st ! a ! c)
       \<and> budgets (load_road_line st l) ! a ! c =
          (if a = i \<and> c = j \<and> (\<exists>b. v = Some b \<and> is_valid_budget b) then the v
           else budgets st ! a ! c)
       \<and> roads (load_road_line st l) ! c ! a =
          (if a = i \<and> c = j \<and> (\<exists>b. v = Some b \<and> is_valid_budget b) then 1 else roads st ! c ! a)
       \<and> budgets (load_road_line st l) ! c ! a =
          (if a = i \<and> c = j \<and> (\<exists>b. v = Some b \<and> is_valid_budget b) then the v
           else budgets st ! c ! a)"
proof -
  have i: "i < length (city_names st)" using ij by simp
  note step = load_road_step [OF d i ij(2) parse]
  have lr: "length (roads st) = length (city_names st)" "length (budgets st) = length (city_names st)"
    using sq by (simp_all add: square_def)
  have rows: "length (roads st ! i) = length (city_names st)" "length (roads st ! j) = length (city_names st)"
    "length (budgets st ! i) = length (city_names st)" "length (budgets st ! j) = length (city_names st)"
    using square_row_length [OF sq i] square_row_length [OF sq ij(2)] by simp_all
  have r: "set_both (roads st) i j 1 ! a ! c = (if a = i \<and> c = j then 1 else roads st ! a ! c)"
    using nth_set_both [of i "roads st" j 1 a c] i ij ac lr rows by auto
  have b: "set_both (budgets st) i j x ! a ! c = (if a = i \<and> c = j then x else budgets st ! a ! c)" for x
    using nth_set_both [of i "budgets st" j x a c] i ij ac lr rows by auto
  have rt: "set_both (roads st) i j 1 ! c ! a = (if a = i \<and> c = j then 1 else roads st ! c ! a)"
    using nth_set_both [of i "roads st" j 1 c a] i ij ac lr rows by auto
  have bt: "set_both (budgets st) i j x ! c ! a = (if a = i \<and> c = j then x else budgets st ! c ! a)" for x
    using nth_set_both [of i "budgets st" j x c a] i ij ac lr rows by auto
  show ?thesis
  proof (cases "\<exists>x. v = Some x \<and> is_valid_budget x")
    case True
    then obtain x where x: "v = Some x" "is_valid_budget x" by blast
    have eq: "load_road_line st l =
        st\<lparr>roads := set_both (roads st) i j 1, budgets := set_both (budgets st) i j x\<rparr>"
      using step x by simp
    have sq': "square (st\<lparr>roads := set_both (roads st) i j 1, budgets := set_both (budgets st) i j x\<rparr>)"
      using sq set_rows_set_both [of "roads st" "length (city_names st)"]
        set_rows_set_both [of "budgets st" "length (city_names st)"]
      by (simp add: square_def)
    have rr: "roads (load_road_line st l) ! a ! c = (if a = i \<and> c = j then 1 else roads st ! a ! c)"
      unfolding eq using r by simp
    have bb: "budgets (load_road_line st l) ! a ! c = (if a = i \<and> c = j then x else budgets st ! a ! c)"
      unfolding eq using b [of x] by simp
    have rrt: "roads (load_road_line st l) ! c ! a = (if a = i \<and> c = j then 1 else roads st ! c ! a)"
      unfolding eq using rt by simp
    have bbt: "budgets (load_road_line st l) ! c ! a = (if a = i \<and> c = j then x else budgets st ! c ! a)"
      unfolding eq using bt [of x] by simp
    have nn: "city_names (load_road_line st l) = city_names st" unfolding eq by simp
    have ss: "square (load_road_line st l)" unfolding eq by (rule sq')
    from True x have t: "(\<exists>b. v = Some b \<and> is_valid_budget b) = True" "the v = x" by auto
    show ?thesis unfolding t using nn ss rr bb rrt bbt by simp
  next
    case False
    then have eq: "load_road_line st l = st" using step by (cases v) auto
    from False have f: "(\<exists>b. v = Some b \<and> is_valid_budget b) = False" by simp
    show ?thesis unfolding f eq using sq by simp
  qed
qed

lemma load_written_roads:
  fixes L :: "nat \<times> nat \<Rightarrow> string" and V :: "nat \<times> nat \<Rightarrow> real option"
  assumes "distinct (city_names st)" and "square st"
    and "\<forall>p \<in> set ps. fst p < snd p \<and> snd p < length (city_names st)"
    and "\<forall>p \<in> set ps. parse_road_line (L p) =
           map_option (\<lambda>b. (city_names st ! fst p, city_names st ! snd p, b)) (V p)"
    and "a < c" and "c < length (city_names st)"
  shows "city_names (foldl load_road_line st (map L ps)) = city_names st
       \<and> square (foldl load_road_line st (map L ps))
       \<and> roads (foldl load_road_line st (map L ps)) ! a ! c =
          (if (a, c) \<in> set ps \<and> (\<exists>b. V (a, c) = Some b \<and> is_valid_budget b) then 1
           else roads st ! a ! c)
       \<and> budgets (foldl load_road_line st (map L ps)) ! a ! c =
          (if (a, c) \<in> set ps \<and> (\<exists>b. V (a, c) = Some b \<and> is_valid_budget b) then the (V (a, c))
           else budgets st ! a ! c)
       \<and> roads (foldl load_road_line st (map L ps)) ! c ! a =
          (if (a, c) \<in> set ps \<and> (\<exists>b. V (a, c) = Some b \<and> is_valid_budget b) then 1
           else roads st ! c ! a)
       \<and> budgets (foldl load_road_line st (map L ps)) ! c ! a =
          (if (a, c) \<in> set ps \<and> (\<exists>b. V (a, c) = Some b \<and> is_valid_budget b) then the (V (a, c))
           else budgets st ! c ! a)"
  using assms
proof (induction ps arbitrary: st)
  case Nil
  then show ?case by simp
next
  case (Cons p ps)
  obtain i j where p: "p = (i, j)" by (cases p)
  define st' where "st' = load_road_line st (L p)"
  have ij: "i < j" "j < length (city_names st)" using Cons.prems(3) p by auto
  have parse: "parse_road_line (L p) =
      map_option (\<lambda>b. (city_names st ! i, city_names st ! j, b)) (V p)"
    using Cons.prems(4) p by auto
  note cells = load_road_step_cells [OF Cons.prems(1,2) ij parse Cons.prems(5,6), folded st'_def]
  have n': "city_names st' = city_names st" and sq': "square st'"
    using cells by simp_all
  have d': "distinct (city_names st')" using Cons.prems(1) n' by simp
  have r3: "\<forall>q \<in> set ps. fst q < snd q \<and> snd q < length (city_names st')"
    using Cons.prems(3) n' by simp
  have r4: "\<forall>q \<in> set ps. parse_road_line (L q) =
         map_option (\<lambda>b. (city_names st' ! fst q, city_names st' ! snd q, b)) (V q)"
    using Cons.prems(4) n' by simp
  have c': "c < length (city_names st')" using Cons.prems(6) n' by simp
  note ih = Cons.IH [OF d' sq' r3 r4 Cons.prems(5) c']
  have f: "foldl load_road_line st (map L (p # ps)) = foldl load_road_line st' (map L ps)"
    by (simp add: st'_def)
  have r1: "roads st' ! a ! c =
      (if a = i \<and> c = j \<and> (\<exists>b. V (i, j) = Some b \<and> is_valid_budget b) then 1 else roads st ! a ! c)"
    and b1: "budgets st' ! a ! c =
      (if a = i \<and> c = j \<and> (\<exists>b. V (i, j) = Some b \<and> is_valid_budget b) then the (V (i, j))
       else budgets st ! a ! c)"
    using cells unfolding p by simp_all
  have r1t: "roads st' ! c ! a =
      (if a = i \<and> c = j \<and> (\<exists>b. V (i, j) = Some b \<and> is_valid_budget b) then 1 else roads st ! c ! a)"
    and b1t: "budgets st' ! c ! a =
      (if a = i \<and> c = j \<and> (\<exists>b. V (i, j) = Some b \<and> is_valid_budget b) then the (V (i, j))
       else budgets st ! c ! a)"
    using cells unfolding p by simp_all
  show ?case
    unfolding f
  proof (intro conjI)
    show "city_names (foldl load_road_line st' (map L ps)) = city_names st" using ih n' by simp
    show "square (foldl load_road_line st' (map L ps))" using ih by simp
    show "roads (foldl load_road_line st' (map L ps)) ! a ! c =
        (if (a, c) \<in> set (p # ps) \<and> (\<exists>b. V (a, c) = Some b \<and> is_valid_budget b) then 1
         else roads st ! a ! c)"
      using ih r1 unfolding p by auto
    show "budgets (foldl load_road_line st' (map L ps)) ! a ! c =
        (if (a, c) \<in> set (p # ps) \<and> (\<exists>b. V (a, c) = Some b \<and> is_valid_budget b)
         then the (V (a, c)) else budgets st ! a ! c)"
      using ih b1 unfolding p by auto
    show "roads (foldl load_road_line st' (map L ps)) ! c ! a =
        (if (a, c) \<in> set (p # ps) \<and> (\<exists>b. V (a, c) = Some b \<and> is_valid_budget b) then 1
         else roads st ! c ! a)"
      using ih r1t unfolding p by auto
    show "budgets (foldl load_road_line st' (map L ps)) ! c ! a =
        (if (a, c) \<in> set (p # ps) \<and> (\<exists>b. V (a, c) = Some b \<and> is_valid_budget b)
         then the (V (a, c)) else budgets st ! c ! a)"
      using ih b1t unfolding p by auto
  qed
qed

lemma names_foldl_load_road_line [simp]:
  "city_names (foldl load_road_line st ls) = city_names st"
  by (induction ls arbitrary: st) (simp_all add: load_road_line_def split: option.splits)

lemma square_foldl_load_road_line:
  assumes "square st"
  shows "square (foldl load_road_line st ls)"
  using assms
  by (induction ls arbitrary: st)
     (auto simp: load_road_line_def square_load_road_record split: option.splits)

lemma insort_key_map:
  "insort_key f (g x) (map g ys) = map g (insort_key (\<lambda>y. f (g y)) x ys)"
  by (induction ys) simp_all

lemma sort_key_map: "sort_key f (map g xs) = map g (sort_key (\<lambda>y. f (g y)) xs)"
  by (induction xs) (simp_all add: insort_key_map)

lemma edge_positions_cong:
  assumes "length (roads s) = length (roads t)"
    and "\<forall>i < length (roads s). length (roads s ! i) = length (roads t ! i)"
    and "\<forall>i j. i < j \<longrightarrow> i < length (roads s) \<longrightarrow> j < length (roads s ! i) \<longrightarrow>
           (roads s ! i ! j = 1) = (roads t ! i ! j = 1)"
  shows "edge_positions s = edge_positions t"
proof -
  have "concat (map (\<lambda>j. if roads s ! i ! j = 1 then [(i, j)] else []) [i + 1 ..< length (roads s ! i)])
      = concat (map (\<lambda>j. if roads t ! i ! j = 1 then [(i, j)] else []) [i + 1 ..< length (roads t ! i)])"
    if "i < length (roads s)" for i
  proof -
    have "map (\<lambda>j. if roads s ! i ! j = 1 then [(i, j)] else []) [i + 1 ..< length (roads s ! i)]
        = map (\<lambda>j. if roads t ! i ! j = 1 then [(i, j)] else []) [i + 1 ..< length (roads s ! i)]"
      using assms(3) that by (intro map_cong) auto
    moreover have "length (roads t ! i) = length (roads s ! i)" using assms(2) that by simp
    ultimately show ?thesis by (simp only:)
  qed
  then have "map (\<lambda>i. concat (map (\<lambda>j. if roads s ! i ! j = 1 then [(i, j)] else [])
                 [i + 1 ..< length (roads s ! i)])) [0 ..< length (roads s)]
      = map (\<lambda>i. concat (map (\<lambda>j. if roads t ! i ! j = 1 then [(i, j)] else [])
                 [i + 1 ..< length (roads t ! i)])) [0 ..< length (roads s)]"
    by (intro map_cong) auto
  then have "concat (map (\<lambda>i. concat (map (\<lambda>j. if roads s ! i ! j = 1 then [(i, j)] else [])
                 [i + 1 ..< length (roads s ! i)])) [0 ..< length (roads s)])
      = concat (map (\<lambda>i. concat (map (\<lambda>j. if roads t ! i ! j = 1 then [(i, j)] else [])
                 [i + 1 ..< length (roads t ! i)])) [0 ..< length (roads t)])"
    unfolding assms(1) [symmetric] by (rule arg_cong)
  then show ?thesis unfolding edge_positions_def .
qed

lemma zero_state_facts [simp]:
  "city_names (zero_state ns) = ns"
  "square (zero_state ns)"
  by (auto simp: zero_state_def square_def)

lemma zero_state_cells:
  assumes "a < length ns" and "c < length ns"
  shows "roads (zero_state ns) ! a ! c = 0" and "budgets (zero_state ns) ! a ! c = 0"
  using assms by (simp_all add: zero_state_def)

lemma empty_state_zero: "empty_state = zero_state []"
  by (simp add: empty_state_def zero_state_def)

lemma mem_new_manager:
  assumes "cities_txt fs = Some (h1 # cl)" and "roads_txt fs = Some (h2 # rl)"
  shows "mem (new_manager fs) = foldl load_road_line (foldl load_city_line empty_state cl) rl"
  using assms by (simp add: new_manager_def load_roads_from_file_def load_cities_from_file_def)

lemma edge_position_range:
  assumes "square st" and "p \<in> set (edge_positions st)"
  shows "fst p < snd p" and "snd p < length (city_names st)" and "fst p < length (city_names st)"
proof -
  obtain i j where p: "p = (i, j)" by (cases p)
  from assms(2) have e: "i < length (roads st)" "i < j" "j < length (roads st ! i)"
    by (simp_all add: p edge_positions_iff)
  have i: "i < length (city_names st)" using e(1) assms(1) by (simp add: square_def)
  have j: "j < length (city_names st)" using e(3) square_row_length(1) [OF assms(1) i] by simp
  show "fst p < snd p" "snd p < length (city_names st)" "fst p < length (city_names st)"
    using e i j by (simp_all add: p)
qed

text \<open>The state that the constructor builds from the files of a save.\<close>

lemma reload_cells:
  assumes wf: "well_formed st"
    and valid: "\<forall>name \<in> set (city_names st). is_valid_city_name name"
    and sep: "\<forall>p \<in> set (edge_positions st). separator_free (city_names st ! fst p)"
    and cf: "cities_txt fs = Some (cities_lines st)"
    and rf: "roads_txt fs = Some (roads_header # map format_road (sort_by_nbr (updated_roads st ex)))"
    and ac: "a < c" "c < length (city_names st)"
  shows "city_names (mem (new_manager fs)) = city_names st
       \<and> square (mem (new_manager fs))
       \<and> roads (mem (new_manager fs)) ! a ! c =
          (if (a, c) \<in> set (edge_positions st)
              \<and> (\<exists>b. stod (fmt_fixed1 (budgets st ! a ! c)) = Some b \<and> is_valid_budget b)
           then 1 else 0)
       \<and> budgets (mem (new_manager fs)) ! a ! c =
          (if (a, c) \<in> set (edge_positions st)
              \<and> (\<exists>b. stod (fmt_fixed1 (budgets st ! a ! c)) = Some b \<and> is_valid_budget b)
           then the (stod (fmt_fixed1 (budgets st ! a ! c))) else 0)
       \<and> roads (mem (new_manager fs)) ! c ! a =
          (if (a, c) \<in> set (edge_positions st)
              \<and> (\<exists>b. stod (fmt_fixed1 (budgets st ! a ! c)) = Some b \<and> is_valid_budget b)
           then 1 else 0)
       \<and> budgets (mem (new_manager fs)) ! c ! a =
          (if (a, c) \<in> set (edge_positions st)
              \<and> (\<exists>b. stod (fmt_fixed1 (budgets st ! a ! c)) = Some b \<and> is_valid_budget b)
           then the (stod (fmt_fixed1 (budgets st ! a ! c))) else 0)"
proof -
  define ns where "ns = city_names st"
  define g where "g = (\<lambda>p. reconcile_road ex (ns ! fst p) (ns ! snd p) (budgets st ! fst p ! snd p))"
  define ps where "ps = sort_key (\<lambda>p. nbr (g p)) (edge_positions st)"
  define L where "L = (\<lambda>p. format_road (g p))"
  define V where "V = (\<lambda>p. stod (fmt_fixed1 (budgets st ! fst p ! snd p)))"
  have d: "distinct ns" and sq: "square st" using wf by (simp_all add: well_formed_def ns_def)
  have up: "updated_roads st ex = map g (edge_positions st)"
    by (simp add: updated_roads_def g_def ns_def case_prod_beta)
  have sorted: "sort_by_nbr (updated_roads st ex) = map g ps"
    by (simp add: sort_by_nbr_def up sort_key_map ps_def)
  have set_ps: "set ps = set (edge_positions st)" by (simp add: ps_def)
  have lines: "map format_road (sort_by_nbr (updated_roads st ex)) = map L ps"
    by (simp add: sorted L_def)
  have cities: "foldl load_city_line empty_state
        (map (\<lambda>i. format_city i (ns ! i)) [0 ..< length ns]) = zero_state ns"
    unfolding empty_state_zero using d valid by (intro load_written_cities) (simp_all add: ns_def)
  have m: "mem (new_manager fs) = foldl load_road_line (zero_state ns) (map L ps)"
    using mem_new_manager [OF cf [unfolded cities_lines_def] rf] cities
    by (simp add: lines ns_def)
  have range: "\<forall>p \<in> set ps. fst p < snd p \<and> snd p < length (city_names (zero_state ns))"
    using edge_position_range [OF sq] by (simp add: set_ps ns_def)
  have parse: "\<forall>p \<in> set ps. parse_road_line (L p) =
      map_option (\<lambda>b. (city_names (zero_state ns) ! fst p, city_names (zero_state ns) ! snd p, b)) (V p)"
  proof
    fix p assume p: "p \<in> set ps"
    then have pe: "p \<in> set (edge_positions st)" by (simp add: set_ps)
    have i: "fst p < length ns" and j: "snd p < length ns"
      using edge_position_range [OF sq pe] by (simp_all add: ns_def)
    have t1: "tab \<notin> set (ns ! fst p)" and t2: "tab \<notin> set (ns ! snd p)"
      using valid i j by (simp_all add: ns_def tab_notin_valid_name)
    have s: "separator_free (ns ! fst p)" using sep pe by (simp add: ns_def)
    have "parse_road_line (format_road (g p)) =
        map_option (\<lambda>b. (city1 (g p), city2 (g p), b)) (stod (fmt_fixed1 (budget (g p))))"
      by (rule parse_format_road) (simp_all add: g_def t1 t2 s)
    then show "parse_road_line (L p) =
      map_option (\<lambda>b. (city_names (zero_state ns) ! fst p, city_names (zero_state ns) ! snd p, b)) (V p)"
      by (simp add: L_def V_def g_def)
  qed
  have c: "c < length (city_names (zero_state ns))" and a: "a < length ns"
    using ac by (simp_all add: ns_def)
  have dz: "distinct (city_names (zero_state ns))" using d by simp
  note fold = load_written_roads [OF dz zero_state_facts(2) range parse ac(1) c, folded m]
  have z: "roads (zero_state ns) ! a ! c = 0" "budgets (zero_state ns) ! a ! c = 0"
    "roads (zero_state ns) ! c ! a = 0" "budgets (zero_state ns) ! c ! a = 0"
    using zero_state_cells a ac(2) by (simp_all add: ns_def)
  have v: "V (a, c) = stod (fmt_fixed1 (budgets st ! a ! c))" by (simp add: V_def)
  show ?thesis using fold unfolding z set_ps v by (simp only: zero_state_facts ns_def)
qed

lemma reload_names:
  assumes wf: "well_formed st"
    and valid: "\<forall>name \<in> set (city_names st). is_valid_city_name name"
    and cf: "cities_txt fs = Some (cities_lines st)"
    and rf: "roads_txt fs = Some (h # rl)"
  shows "city_names (mem (new_manager fs)) = city_names st" and "square (mem (new_manager fs))"
proof -
  have cities: "foldl load_city_line empty_state
        (map (\<lambda>i. format_city i (city_names st ! i)) [0 ..< length (city_names st)])
        = zero_state (city_names st)"
    unfolding empty_state_zero using wf valid
    by (intro load_written_cities) (simp_all add: well_formed_def)
  have m: "mem (new_manager fs) = foldl load_road_line (zero_state (city_names st)) rl"
    using mem_new_manager [OF cf [unfolded cities_lines_def] rf] cities by simp
  show "city_names (mem (new_manager fs)) = city_names st" by (simp add: m)
  show "square (mem (new_manager fs))" unfolding m by (intro square_foldl_load_road_line) simp
qed

section \<open>Saving and starting again\<close>

lemma read_existing_roads_cities [simp]:
  "read_existing_roads (fs\<lparr>cities_txt := x\<rparr>) = read_existing_roads fs"
  by (simp add: read_existing_roads_def)

lemma disk_save_all:
  assumes "cities_writable (disk w)" and "roads_writable (disk w)"
  shows "cities_txt (disk (save_all w)) = Some (cities_lines (mem w))"
    and "roads_txt (disk (save_all w)) =
      Some (roads_header # map format_road
             (sort_by_nbr (updated_roads (mem w) (read_existing_roads (disk w)))))"
  using assms
  by (simp_all add: save_all_def save_roads_to_file_def save_cities_to_file_def roads_lines_def)

text \<open>
  The claim as stated fails: \<^verbatim>\<open>add_road\<close> leaves the budget of a new road at 0.0, the
  save writes the record with \<^verbatim>\<open>0.0\<close>, and the load refuses a budget that is not
  positive. The state with the road Kigali - Huye and no budget has one road before the
  save and none after the restart.
\<close>

theorem restart_loses_unbudgeted_road:
  "canonical_edges (mem unbudgeted_world) = [(0, 1, 0)]
   \<and> roads_txt (disk (save_all unbudgeted_world)) =
       Some [roads_header, road_line ''1'' ''Kigali - Huye'' ''0.0'']
   \<and> city_names (restarted unbudgeted_world) = [''Kigali'', ''Huye'']
   \<and> canonical_edges (restarted unbudgeted_world) = []"
  by code_simp

text \<open>
  Claim C3, amended. Let the city names be valid and pairwise distinct and the matrices
  square; let every road have a budget in \<open>(0, 1000]\<close> that is read back unchanged after
  being written with one decimal place; let the name of the first city of every road
  neither hold \<^verbatim>\<open>" - "\<close> nor end in \<^verbatim>\<open>" -"\<close>; and let both files be writable. Then
  saving the city file and the road file and constructing a manager from them gives the
  same city list and the same canonical enumeration of roads with their budgets.
  What the road file held before the save does not matter.
\<close>

theorem restart_reproduces_state:
  assumes wf: "well_formed (mem w)"
    and valid: "\<forall>name \<in> set (city_names (mem w)). is_valid_city_name name"
    and edges: "\<forall>p \<in> set (edge_positions (mem w)).
           separator_free (city_names (mem w) ! fst p)
           \<and> budget_survives (budgets (mem w) ! fst p ! snd p)"
    and cw: "cities_writable (disk w)" and rw: "roads_writable (disk w)"
  shows "city_names (restarted w) = city_names (mem w)
       \<and> canonical_edges (restarted w) = canonical_edges (mem w)"
proof -
  define st where "st = mem w"
  define fs where "fs = disk (save_all w)"
  define st' where "st' = mem (new_manager fs)"
  have sq: "square st" using wf by (simp add: well_formed_def st_def)
  have sep: "\<forall>p \<in> set (edge_positions st). separator_free (city_names st ! fst p)"
    using edges by (simp add: st_def)
  note files = disk_save_all [OF cw rw, folded fs_def st_def]
  have names: "city_names st' = city_names st" and sq': "square st'"
    using reload_names [OF wf [folded st_def] valid [folded st_def] files] by (simp_all add: st'_def)
  have cell: "roads st' ! a ! c = (if (a, c) \<in> set (edge_positions st) then 1 else 0)
      \<and> ((a, c) \<in> set (edge_positions st) \<longrightarrow> budgets st' ! a ! c = budgets st ! a ! c)"
    if ac: "a < c" "c < length (city_names st)" for a c
  proof -
    note r = reload_cells [OF wf [folded st_def] valid [folded st_def] sep files ac, folded st'_def]
    show ?thesis
    proof (cases "(a, c) \<in> set (edge_positions st)")
      case True
      then have "budget_survives (budgets st ! a ! c)" using edges by (auto simp: st_def)
      then have ok: "stod (fmt_fixed1 (budgets st ! a ! c)) = Some (budgets st ! a ! c)"
        "is_valid_budget (budgets st ! a ! c)"
        by (simp_all add: budget_survives_def)
      show ?thesis using r True ok by simp
    next
      case False
      then show ?thesis using r by simp
    qed
  qed
  have len: "length (roads st') = length (roads st)"
    using sq sq' names by (simp add: square_def)
  have rows: "\<forall>i < length (roads st'). length (roads st' ! i) = length (roads st ! i)"
    using sq sq' names by (simp add: square_def)
  have same: "\<forall>i j. i < j \<longrightarrow> i < length (roads st') \<longrightarrow> j < length (roads st' ! i) \<longrightarrow>
      (roads st' ! i ! j = 1) = (roads st ! i ! j = 1)"
  proof (intro allI impI)
    fix i j assume ij: "i < j" "i < length (roads st')" "j < length (roads st' ! i)"
    have i: "i < length (city_names st)" using ij(2) sq' names by (simp add: square_def)
    have j: "j < length (city_names st)"
      using ij(3) square_row_length(1) [OF sq', of i] i names by simp
    have "(roads st' ! i ! j = 1) = ((i, j) \<in> set (edge_positions st))"
      using cell [OF ij(1) j] by simp
    also have "\<dots> = (roads st ! i ! j = 1)"
      using ij(1) i j sq square_row_length(1) [OF sq i]
      by (simp add: edge_positions_iff square_def)
    finally show "(roads st' ! i ! j = 1) = (roads st ! i ! j = 1)" .
  qed
  have pos: "edge_positions st' = edge_positions st"
    by (rule edge_positions_cong [OF len rows same])
  have "map (\<lambda>(i, j). (i, j, budgets st' ! i ! j)) (edge_positions st)
      = map (\<lambda>(i, j). (i, j, budgets st ! i ! j)) (edge_positions st)"
  proof (intro map_cong refl)
    fix p assume p: "p \<in> set (edge_positions st)"
    obtain i j where ij: "p = (i, j)" by (cases p)
    have "i < j" "j < length (city_names st)"
      using edge_position_range [OF sq p] by (simp_all add: ij)
    from cell [OF this] p show "(case p of (i, j) \<Rightarrow> (i, j, budgets st' ! i ! j))
        = (case p of (i, j) \<Rightarrow> (i, j, budgets st ! i ! j))"
      by (simp add: ij)
  qed
  then have "canonical_edges st' = canonical_edges st"
    by (simp add: canonical_edges_def pos)
  then show ?thesis using names by (simp add: restarted_def st'_def fs_def st_def)
qed

theorem restart_reproduces_state_witness:
  "city_names (restarted budgeted_world) = three_cities
   \<and> canonical_edges (mem budgeted_world) = [(0, 1, 12.5), (1, 2, 7)]
   \<and> canonical_edges (restarted budgeted_world) = [(0, 1, 12.5), (1, 2, 7)]"
proof -
  have h1: "well_formed (mem budgeted_world)" by code_simp
  have h2: "\<forall>name \<in> set (city_names (mem budgeted_world)). is_valid_city_name name" by code_simp
  have h3: "\<forall>p \<in> set (edge_positions (mem budgeted_world)).
           separator_free (city_names (mem budgeted_world) ! fst p)
           \<and> budget_survives (budgets (mem budgeted_world) ! fst p ! snd p)" by code_simp
  have h4: "cities_writable (disk budgeted_world)" by code_simp
  have h5: "roads_writable (disk budgeted_world)" by code_simp
  have n: "city_names (mem budgeted_world) = three_cities" by (simp add: budgeted_world_def)
  have e: "canonical_edges (mem budgeted_world) = [(0, 1, 12.5), (1, 2, 7)]" by code_simp
  show ?thesis using restart_reproduces_state [OF h1 h2 h3 h4 h5] n e by simp
qed

section \<open>What the operations keep\<close>

lemma square_set_both_cells:
  assumes "square st" and "i < length (city_names st)" and "j < length (city_names st)"
  shows "set_both (roads st) i j v ! a ! c =
           (if (a = i \<and> c = j) \<or> (a = j \<and> c = i) then v else roads st ! a ! c)"
    and "set_both (budgets st) i j x ! a ! c =
           (if (a = i \<and> c = j) \<or> (a = j \<and> c = i) then x else budgets st ! a ! c)"
proof -
  have l: "length (roads st) = length (city_names st)" "length (budgets st) = length (city_names st)"
    using assms(1) by (simp_all add: square_def)
  note ri = square_row_length [OF assms(1,2)] and rj = square_row_length [OF assms(1,3)]
  show "set_both (roads st) i j v ! a ! c =
           (if (a = i \<and> c = j) \<or> (a = j \<and> c = i) then v else roads st ! a ! c)"
    using assms(2,3) l ri rj by (intro nth_set_both) simp_all
  show "set_both (budgets st) i j x ! a ! c =
           (if (a = i \<and> c = j) \<or> (a = j \<and> c = i) then x else budgets st ! a ! c)"
    using assms(2,3) l ri rj by (intro nth_set_both) simp_all
qed

lemma tidy_push_city:
  assumes "square st" and "tidy st"
  shows "tidy (push_city st name)"
  unfolding tidy_def
proof (intro allI impI)
  fix i j
  assume "i < length (city_names (push_city st name))" "j < length (city_names (push_city st name))"
  then have ij: "i \<le> length (city_names st)" "j \<le> length (city_names st)" by simp_all
  note c = roads_push_city [OF assms(1) ij, of name] roads_push_city [OF assms(1) ij(2,1), of name]
    budgets_push_city [OF assms(1) ij, of name] budgets_push_city [OF assms(1) ij(2,1), of name]
  show "(roads (push_city st name) ! i ! j = 0 \<or> roads (push_city st name) ! i ! j = 1)
      \<and> roads (push_city st name) ! i ! j = roads (push_city st name) ! j ! i
      \<and> budgets (push_city st name) ! i ! j = budgets (push_city st name) ! j ! i
      \<and> (roads (push_city st name) ! i ! j = 0 \<longrightarrow> budgets (push_city st name) ! i ! j = 0)"
    unfolding c using assms(2) by (auto simp: tidy_def)
qed

lemma tidy_load_road_record:
  assumes "square st" and "tidy st"
  shows "tidy (load_road_record st c1 c2 b)"
proof (cases "get_city_index st c1 \<noteq> - 1 \<and> get_city_index st c2 \<noteq> - 1 \<and> is_valid_budget b")
  case False
  then show ?thesis using assms(2) by (auto simp: load_road_record_def Let_def)
next
  case True
  define i where "i = nat (get_city_index st c1)"
  define j where "j = nat (get_city_index st c2)"
  have i: "i < length (city_names st)" and j: "j < length (city_names st)"
    using True get_city_index_present(2) [of c1 st] get_city_index_present(2) [of c2 st]
    by (simp_all add: i_def j_def get_city_index_absent)
  have eq: "load_road_record st c1 c2 b =
      st\<lparr>roads := set_both (roads st) i j 1, budgets := set_both (budgets st) i j b\<rparr>"
    using True by (simp add: load_road_record_def Let_def i_def j_def)
  have pos: "b \<noteq> 0" using True by (auto simp: is_valid_budget_def)
  show ?thesis
    unfolding eq tidy_def using assms(2) pos
    by (auto simp: square_set_both_cells [OF assms(1) i j] tidy_def)
qed

lemma tidy_add_road:
  assumes "square st" and "tidy st" and "i < length (city_names st)" and "j < length (city_names st)"
  shows "tidy (st\<lparr>roads := set_both (roads st) i j 1\<rparr>)"
  unfolding tidy_def using assms(2)
  by (auto simp: square_set_both_cells [OF assms(1,3,4)] tidy_def)

lemma tidy_add_budget:
  assumes "square st" and "tidy st" and "i < length (city_names st)" and "j < length (city_names st)"
    and "roads st ! i ! j \<noteq> 0"
  shows "tidy (st\<lparr>budgets := set_both (budgets st) i j b\<rparr>)"
proof -
  have "roads st ! j ! i \<noteq> 0" using assms(2-5) by (auto simp: tidy_def)
  then show ?thesis
    unfolding tidy_def using assms(2,5)
    by (auto simp: square_set_both_cells [OF assms(1,3,4)] tidy_def)
qed

lemma tidy_rename:
  assumes "tidy st"
  shows "tidy (st\<lparr>city_names := (city_names st)[k := new_name]\<rparr>)"
  using assms by (simp add: tidy_def)

lemma sound_push_city:
  assumes "sound st" and "name \<notin> set (city_names st)" and "is_valid_city_name name"
  shows "sound (push_city st name)"
proof -
  from assms(1) have wf: "well_formed st" and t: "tidy st"
    and v: "\<forall>x \<in> set (city_names st). is_valid_city_name x"
    by (simp_all add: sound_def)
  have sq: "square st" using wf by (simp add: well_formed_def)
  show ?thesis
    using well_formed_push_city [OF wf assms(2)] tidy_push_city [OF sq t] v assms(3)
    by (simp add: sound_def)
qed

lemma sound_load_city_line:
  assumes "sound st"
  shows "sound (load_city_line st line)"
  using load_city_line_cases [of st line] assms by (auto intro: sound_push_city)

lemma sound_load_road_line:
  assumes "sound st"
  shows "sound (load_road_line st line)"
proof -
  from assms have wf: "well_formed st" and t: "tidy st"
    and v: "\<forall>x \<in> set (city_names st). is_valid_city_name x"
    by (simp_all add: sound_def)
  have sq: "square st" using wf by (simp add: well_formed_def)
  have "sound (load_road_record st c1 c2 b)" for c1 c2 b
    using well_formed_load_road_record [OF wf] tidy_load_road_record [OF sq t] v
    by (simp add: sound_def)
  then show ?thesis using assms by (simp add: load_road_line_def split: option.splits)
qed

lemma sound_foldl:
  assumes "\<And>s x. sound s \<Longrightarrow> sound (f s x)" and "sound st"
  shows "sound (foldl f st xs)"
  using assms(2) by (induction xs arbitrary: st) (simp_all add: assms(1))

lemma sound_new_manager: "sound (mem (new_manager fs))"
proof -
  have 0: "sound empty_state"
    using well_formed_empty by (simp add: sound_def tidy_def empty_state_def)
  have 1: "sound (mem (load_cities_from_file \<lparr>mem = empty_state, disk = fs, console = []\<rparr>))"
    by (auto simp: load_cities_from_file_def 0 split: option.splits
        intro!: sound_foldl sound_load_city_line)
  have 2: "sound (mem (load_roads_from_file w))" if "sound (mem w)" for w
    using that by (auto simp: load_roads_from_file_def split: option.splits
        intro!: sound_foldl sound_load_road_line)
  show ?thesis unfolding new_manager_def by (intro 2 1)
qed

lemma sound_add_city_names:
  assumes "add_city_names st names = Some st'" and "sound st"
  shows "sound st'"
  using assms
proof (induction names arbitrary: st)
  case Nil
  then show ?case by simp
next
  case (Cons name rest)
  from Cons.prems(1) have ok: "name \<notin> set (city_names st)" "is_valid_city_name name"
    and rest: "add_city_names (push_city st name) rest = Some st'"
    by (auto simp: city_exists_iff split: if_splits)
  show ?case by (rule Cons.IH [OF rest sound_push_city [OF Cons.prems(2) ok]])
qed

lemma sound_run_command:
  assumes "run_command w c = Some w'" and "sound (mem w)"
  shows "sound (mem w')"
proof (cases c)
  case (AddCities names)
  with assms(1) obtain st' where "add_city_names (mem w) names = Some st'" "mem w' = st'"
    by (auto simp: add_cities_def split: if_splits option.splits)
  then show ?thesis using sound_add_city_names assms(2) by auto
next
  case (AddRoad c1 c2)
  define i where "i = nat (get_city_index (mem w) c1)"
  define j where "j = nat (get_city_index (mem w) c2)"
  from AddRoad assms(1) have e: "c1 \<in> set (city_names (mem w))" "c2 \<in> set (city_names (mem w))"
    and m: "mem w' = (mem w)\<lparr>roads := set_both (roads (mem w)) i j 1\<rparr>"
    by (auto simp: add_road_def Let_def city_exists_iff i_def j_def split: if_splits)
  have ij: "i < length (city_names (mem w))" "j < length (city_names (mem w))"
    using get_city_index_present(2) e by (simp_all add: i_def j_def)
  show ?thesis
    using assms(2) tidy_add_road [OF _ _ ij] well_formed_roads_update [of "mem w" i j 1]
    by (simp add: m sound_def well_formed_def)
next
  case (AddBudget c1 c2 b)
  define i where "i = nat (get_city_index (mem w) c1)"
  define j where "j = nat (get_city_index (mem w) c2)"
  from AddBudget assms(1) have e: "c1 \<in> set (city_names (mem w))" "c2 \<in> set (city_names (mem w))"
    and r: "roads (mem w) ! i ! j \<noteq> 0"
    and m: "mem w' = (mem w)\<lparr>budgets := set_both (budgets (mem w)) i j b\<rparr>"
    by (auto simp: add_budget_def Let_def city_exists_iff road_between_def i_def j_def split: if_splits)
  have ij: "i < length (city_names (mem w))" "j < length (city_names (mem w))"
    using get_city_index_present(2) e by (simp_all add: i_def j_def)
  show ?thesis
    using assms(2) tidy_add_budget [OF _ _ ij r] well_formed_budgets_update [of "mem w" i j b]
    by (simp add: m sound_def well_formed_def)
next
  case (EditCity index new_name)
  with assms(1) have n: "new_name \<notin> set (city_names (mem w))" "is_valid_city_name new_name"
    and m: "mem w' = (mem w)\<lparr>city_names := (city_names (mem w))[nat (index - 1) := new_name]\<rparr>"
    by (auto simp: edit_city_def Let_def city_exists_iff split: if_splits)
  have "\<forall>name \<in> set ((city_names (mem w))[nat (index - 1) := new_name]). is_valid_city_name name"
    using assms(2) n(2) set_update_subset_insert [of "city_names (mem w)" "nat (index - 1)" new_name]
    by (auto simp: sound_def)
  then show ?thesis
    using assms(2) well_formed_rename [OF _ n(1)] tidy_rename
    by (simp add: m sound_def)
qed

lemma sound_session:
  assumes "session w cmds = Some w'" and "sound (mem w)"
  shows "sound (mem w')"
  using assms
proof (induction cmds arbitrary: w)
  case Nil
  then show ?case by simp
next
  case (Cons c cs)
  from Cons.prems(1) obtain w1 where 1: "run_command w c = Some w1" and 2: "session w1 cs = Some w'"
    by (auto split: option.splits)
  show ?case by (rule Cons.IH [OF 2 sound_run_command [OF 1 Cons.prems(2)]])
qed

text \<open>
  In the manager as constructed, and after any sequence of completed operations, both
  matrices are symmetric.
\<close>

lemma symmetric_after_session:
  assumes "session (new_manager fs) cmds = Some w"
    and "i < length (city_names (mem w))" and "j < length (city_names (mem w))"
  shows "roads (mem w) ! i ! j = roads (mem w) ! j ! i"
    and "budgets (mem w) ! i ! j = budgets (mem w) ! j ! i"
proof -
  have "tidy (mem w)"
    using sound_session [OF assms(1) sound_new_manager] by (simp add: sound_def)
  then show "roads (mem w) ! i ! j = roads (mem w) ! j ! i"
    and "budgets (mem w) ! i ! j = budgets (mem w) ! j ! i"
    using assms(2,3) unfolding tidy_def by blast+
qed

section \<open>A road without a budget\<close>

lemma fmt_fixed1_zero: "fmt_fixed1 0 = ''0.0''"
  by code_simp

lemma stod_zero: "stod ''0.0'' = Some 0"
  by code_simp

lemma cities_lines_roads [simp]: "cities_lines (st\<lparr>roads := r\<rparr>) = cities_lines st"
  by (simp add: cities_lines_def)

lemma load_refused_budget_line:
  assumes "tab \<notin> set xs" and "tab \<notin> set ys" and "stod zs = Some b" and "\<not> is_valid_budget b"
  shows "load_road_line s (xs @ [tab] @ ys @ [tab] @ zs) = s"
proof -
  define line where "line = xs @ tab # ys @ tab # zs"
  have first: "find_char line tab 0 = Some (length xs)"
    unfolding line_def by (rule find_char_first [OF assms(1)])
  have second: "find_char line tab (length xs + 1) = Some (length xs + 1 + length ys)"
    unfolding line_def by (rule find_char_second [OF assms(2)])
  have rest: "drop (length xs + 1 + length ys + 1) line = zs"
    by (simp add: line_def)
  have "parse_road_line line = None \<or> (\<exists>c1 c2. parse_road_line line = Some (c1, c2, b))"
    unfolding parse_road_line_def first second option.case Let_def rest assms(3)
    by (simp split: option.splits)
  then have "load_road_line s line = s"
    using assms(4) by (auto simp: load_road_line_def load_road_record_def Let_def)
  then show ?thesis by (simp add: line_def)
qed

text \<open>
  Claim C9 at a concrete input. The road from Gisenyi to Rubavu - Huye is added and given
  no budget: its budget cell is 0, its row is written with \<^verbatim>\<open>0.0\<close>, and the load refuses
  that row. But the row of the budgeted road from Gisenyi - Rubavu to Huye has the same
  road field; the load splits it at its first \<^verbatim>\<open>" - "\<close>, reads it as a road from Gisenyi
  to Rubavu - Huye, and puts the unbudgeted road back, with budget 5. The road is there
  after the restart.
\<close>

theorem unbudgeted_road_restored_by_other_row:
  "map_option
     (\<lambda>w. (roads (mem w) ! 0 ! 1, budgets (mem w) ! 0 ! 1, roads_txt (disk w),
           roads (mem (new_manager (disk w))) ! 0 ! 1,
           budgets (mem (new_manager (disk w))) ! 0 ! 1))
     (session (new_manager plain_disk) crossed_names_session)
   = Some (1, 0,
           Some [roads_header,
                 road_line ''2'' ''Gisenyi - Rubavu - Huye'' ''0.0'',
                 road_line ''3'' ''Gisenyi - Rubavu - Huye'' ''5.0''],
           1, 5)"
  by code_simp

text \<open>
  Where the names keep the rows apart, the road is lost. In a manager reached from the
  constructor by completed operations, let \<^verbatim>\<open>add_road\<close> add the road between \<open>c1\<close> and
  \<open>c2\<close>. Then the adjacency cell is 1 and both budget cells are still 0. If the road file
  can be written, the save of \<^verbatim>\<open>add_road\<close> writes a row for the road whose budget field
  is \<^verbatim>\<open>0.0\<close>. The load leaves every state as it is on such a row. If moreover the city
  file is the one a save of the current city list writes, and the name of the first city
  of every road neither holds \<^verbatim>\<open>" - "\<close> nor ends in \<^verbatim>\<open>" -"\<close>, then a manager constructed
  from the files has the same cities and no road between \<open>c1\<close> and \<open>c2\<close>.
\<close>

lemma unbudgeted_road_lost_on_restart:
  assumes reach: "session (new_manager fs) cmds = Some w"
    and add: "add_road w c1 c2 = Some w'"
  shows "let st = mem w;
             i = nat (get_city_index st c1); j = nat (get_city_index st c2);
             road = city_names st ! min i j @ '' - '' @ city_names st ! max i j
         in roads (mem w') ! i ! j = 1
          \<and> budgets (mem w') ! i ! j = 0 \<and> budgets (mem w') ! j ! i = 0
          \<and> (roads_writable (disk w) \<longrightarrow>
                (\<exists>n lines. roads_txt (disk w') = Some lines
                   \<and> road_line (show_int n) road ''0.0'' \<in> set lines))
          \<and> (\<forall>n s. load_road_line s (road_line (show_int n) road ''0.0'') = s)
          \<and> (roads_writable (disk w) \<and> cities_txt (disk w) = Some (cities_lines st)
               \<and> (\<forall>p \<in> set (edge_positions (mem w')). separator_free (city_names st ! fst p))
              \<longrightarrow> city_names (mem (new_manager (disk w'))) = city_names st
                \<and> roads (mem (new_manager (disk w'))) ! i ! j = 0
                \<and> roads (mem (new_manager (disk w'))) ! j ! i = 0)"
proof -
  define st where "st = mem w"
  define i where "i = nat (get_city_index st c1)"
  define j where "j = nat (get_city_index st c2)"
  define lo where "lo = min i j"
  define hi where "hi = max i j"
  define road where "road = city_names st ! lo @ '' - '' @ city_names st ! hi"
  define st1 where "st1 = st\<lparr>roads := set_both (roads st) i j 1\<rparr>"
  define ex where "ex = read_existing_roads (disk w)"
  have snd: "sound st"
    unfolding st_def by (rule sound_session [OF reach sound_new_manager])
  then have wf: "well_formed st" and valid: "\<forall>name \<in> set (city_names st). is_valid_city_name name"
    and tidy: "tidy st" by (simp_all add: sound_def)
  have sq: "square st" and dist: "distinct (city_names st)" using wf by (simp_all add: well_formed_def)
  from add have e: "c1 \<in> set (city_names st)" "c2 \<in> set (city_names st)" "c2 \<noteq> c1"
    and nr: "roads st ! i ! j \<noteq> 1"
    and w': "w' = save_roads_to_file (w\<lparr>mem := st1\<rparr>)"
    by (auto simp: add_road_def Let_def city_exists_iff road_between_def st_def i_def j_def st1_def
        split: if_splits)
  have i: "i < length (city_names st)" "city_names st ! i = c1"
    using get_city_index_present [OF e(1)] by (simp_all add: i_def)
  have j: "j < length (city_names st)" "city_names st ! j = c2"
    using get_city_index_present [OF e(2)] by (simp_all add: j_def)
  have ne: "i \<noteq> j" using i j e(3) by auto
  have t1: "(roads st ! i ! j = 0 \<or> roads st ! i ! j = 1) \<and> roads st ! i ! j = roads st ! j ! i
      \<and> budgets st ! i ! j = budgets st ! j ! i
      \<and> (roads st ! i ! j = 0 \<longrightarrow> budgets st ! i ! j = 0)"
    using tidy i(1) j(1) unfolding tidy_def by blast
  have t2: "roads st ! j ! i = 0 \<longrightarrow> budgets st ! j ! i = 0"
    using tidy i(1) j(1) unfolding tidy_def by blast
  have zero: "roads st ! i ! j = 0" "budgets st ! i ! j = 0" "budgets st ! j ! i = 0"
    using t1 t2 nr by auto
  have mem': "mem w' = st1" by (simp add: w')
  have names1: "city_names st1 = city_names st" and b1: "budgets st1 = budgets st"
    by (simp_all add: st1_def)
  have cells: "roads st1 ! a ! c = (if (a = i \<and> c = j) \<or> (a = j \<and> c = i) then 1 else roads st ! a ! c)"
    for a c
    using square_set_both_cells(1) [OF sq i(1) j(1)] by (simp add: st1_def)
  have wf1: "well_formed st1" unfolding st1_def by (rule well_formed_roads_update [OF wf])
  then have sq1: "square st1" by (simp add: well_formed_def)
  have lohi: "lo < hi" "hi < length (city_names st)" "lo < length (city_names st)"
    "(lo = i \<and> hi = j) \<or> (lo = j \<and> hi = i)"
    using ne i(1) j(1) by (auto simp: lo_def hi_def min_def max_def)
  have edge: "(lo, hi) \<in> set (edge_positions st1)"
    using lohi cells [of lo hi] sq1 square_row_length(1) [OF sq1, of lo]
    by (auto simp: edge_positions_iff square_def names1)
  have blo: "budgets st1 ! lo ! hi = 0" using lohi(4) zero by (auto simp: b1)
  have tabs: "tab \<notin> set (city_names st ! lo)" "tab \<notin> set (city_names st ! hi)"
    using valid lohi by (simp_all add: tab_notin_valid_name)
  have discard: "load_road_line s (road_line (show_int n) road ''0.0'') = s" for n s
  proof -
    have "tab \<notin> set road" using tabs by (auto simp: road_def tab_def)
    from load_refused_budget_line [OF tab_notin_show_int [of n] this stod_zero, where s = s]
    show ?thesis by (simp add: road_line_def is_valid_budget_def)
  qed
  have written: "\<exists>n lines. roads_txt (disk w') = Some lines
      \<and> road_line (show_int n) road ''0.0'' \<in> set lines" if rw: "roads_writable (disk w)"
  proof -
    have disk': "roads_txt (disk w') =
        Some (roads_header # map format_road (sort_by_nbr (updated_roads st1 ex)))"
      using rw by (simp add: w' save_roads_to_file_def roads_lines_def ex_def)
    define entry where "entry = reconcile_road ex (city_names st1 ! lo) (city_names st1 ! hi)
        (budgets st1 ! lo ! hi)"
    have "entry \<in> set (updated_roads st1 ex)"
      using edge by (force simp: updated_roads_def entry_def)
    then have inl: "format_road entry
        \<in> set (roads_header # map format_road (sort_by_nbr (updated_roads st1 ex)))"
      by simp
    have fl: "format_road entry = road_line (show_int (nbr entry)) road ''0.0''"
      by (simp add: format_road_def entry_def road_line_def road_def names1 blo fmt_fixed1_zero)
    show ?thesis using disk' inl fl by (intro exI [of _ "nbr entry"]) simp
  qed
  have restart: "city_names (mem (new_manager (disk w'))) = city_names st
      \<and> roads (mem (new_manager (disk w'))) ! i ! j = 0
      \<and> roads (mem (new_manager (disk w'))) ! j ! i = 0"
    if rw: "roads_writable (disk w)" and cf: "cities_txt (disk w) = Some (cities_lines st)"
      and sep: "\<forall>p \<in> set (edge_positions (mem w')). separator_free (city_names st ! fst p)"
  proof -
    have disk': "roads_txt (disk w') =
        Some (roads_header # map format_road (sort_by_nbr (updated_roads st1 ex)))"
      and cities': "cities_txt (disk w') = Some (cities_lines st1)"
      using rw cf by (simp_all add: w' save_roads_to_file_def roads_lines_def ex_def st1_def)
    have valid1: "\<forall>name \<in> set (city_names st1). is_valid_city_name name"
      using valid by (simp add: names1)
    have sep1: "\<forall>p \<in> set (edge_positions st1). separator_free (city_names st1 ! fst p)"
      using sep by (simp add: mem' names1)
    note r = reload_cells [OF wf1 valid1 sep1 cities' disk' lohi(1) lohi(2) [folded names1]]
    have nv: "\<not> (\<exists>b. stod (fmt_fixed1 (budgets st1 ! lo ! hi)) = Some b \<and> is_valid_budget b)"
      by (simp add: blo fmt_fixed1_zero stod_zero is_valid_budget_def)
    have rn: "city_names (mem (new_manager (disk w'))) = city_names st"
      and r0: "roads (mem (new_manager (disk w'))) ! lo ! hi = 0"
        "roads (mem (new_manager (disk w'))) ! hi ! lo = 0"
      using r nv by (simp_all add: names1)
    show ?thesis using rn r0 lohi(4) by auto
  qed
  have "roads (mem w') ! i ! j = 1" using cells [of i j] by (simp add: mem')
  moreover have "budgets (mem w') ! i ! j = 0" "budgets (mem w') ! j ! i = 0"
    using zero by (simp_all add: mem' b1)
  ultimately show ?thesis
    using written discard restart
    unfolding Let_def st_def [symmetric] i_def [symmetric] j_def [symmetric]
      lo_def [symmetric] hi_def [symmetric] road_def [symmetric]
    by blast
qed

lemma unbudgeted_road_lost_on_restart_example:
  "session (new_manager plain_disk) [AddCities [''Kigali'', ''Huye'']] = Some two_cities_world
   \<and> add_road two_cities_world ''Kigali'' ''Huye'' = Some road_added_world
   \<and> roads (mem road_added_world) ! 0 ! 1 = 1
   \<and> budgets (mem road_added_world) ! 0 ! 1 = 0
   \<and> road_line ''1'' ''Kigali - Huye'' ''0.0'' \<in> set (the (roads_txt (disk road_added_world)))
   \<and> roads (mem (new_manager (disk road_added_world))) ! 0 ! 1 = 0
   \<and> roads (mem (new_manager (disk road_added_world))) ! 1 ! 0 = 0"
proof -
  have h1: "session (new_manager plain_disk) [AddCities [''Kigali'', ''Huye'']] = Some two_cities_world"
    by code_simp
  have h2: "add_road two_cities_world ''Kigali'' ''Huye'' = Some road_added_world" by code_simp
  have h3: "roads_writable (disk two_cities_world)" by code_simp
  have h4: "cities_txt (disk two_cities_world) = Some (cities_lines (mem two_cities_world))"
    by code_simp
  have h5: "\<forall>p \<in> set (edge_positions (mem road_added_world)).
      separator_free (city_names (mem two_cities_world) ! fst p)" by code_simp
  have i: "nat (get_city_index (mem two_cities_world) ''Kigali'') = 0"
    "nat (get_city_index (mem two_cities_world) ''Huye'') = 1" by code_simp+
  have l: "road_line ''1'' ''Kigali - Huye'' ''0.0'' \<in> set (the (roads_txt (disk road_added_world)))"
    by code_simp
  show ?thesis
    using unbudgeted_road_lost_on_restart [OF h1 h2] h1 h2 h3 h4 h5 i l by (simp add: Let_def)
qed

end
